theory Spec2Isabelle
  imports Complex_Main "HOL-Library.Log_Nat" "HOL-Library.Code_Target_Numeral"
begin

chapter \<open>The calculator: strategies, command history, model and controller\<close>

section \<open>JavaScript numbers\<close>

text \<open>
  A JavaScript number is an IEEE-754 binary64 value. The model keeps the three special
  values apart and carries a finite value as the rational it denotes. Every arithmetic
  primitive rounds its exact result with \<open>fl\<close> (round to nearest, ties to even, gradual
  underflow, overflow to infinity), so the finite values the program computes are
  exactly the doubles JavaScript computes. The two zeros are identified: the program
  never divides by a zero (the basic strategy throws first) and prints both as \<open>0\<close>.
\<close>

datatype number = NaN | PosInf | NegInf | Fin rat

definition pow2 :: "int \<Rightarrow> rat" where
  "pow2 e = (if 0 \<le> e then 2 ^ nat e else 1 / 2 ^ nat (- e))"

definition pow10 :: "int \<Rightarrow> rat" where
  "pow10 e = (if 0 \<le> e then 10 ^ nat e else 1 / 10 ^ nat (- e))"

text \<open>\<open>ilog b q\<close> is the floor of the base-\<open>b\<close> logarithm of a positive rational.\<close>

definition ilog :: "nat \<Rightarrow> rat \<Rightarrow> int" where
  "ilog b q =
     (if 1 \<le> q then int (floorlog b (nat \<lfloor>q\<rfloor>)) - 1
      else - int (floorlog b (nat (\<lceil>1 / q\<rceil> - 1))))"

definition round_half_even :: "rat \<Rightarrow> int" where
  "round_half_even m =
     (let f = \<lfloor>m\<rfloor>; d = m - of_int f
      in if d < 1 / 2 then f else if 1 / 2 < d then f + 1 else if even f then f else f + 1)"

text \<open>Rounding of an exact result to binary64: 53 significant bits, exponents from -1022.\<close>

definition fl :: "rat \<Rightarrow> number" where
  "fl q =
     (if q = 0 then Fin 0
      else let a = \<bar>q\<bar>;
               e = max (ilog 2 a) (- 1022);
               u = pow2 (e - 52);
               r = of_int (round_half_even (a / u)) * u
           in if pow2 1024 \<le> r then (if 0 < q then PosInf else NegInf)
              else Fin (if 0 < q then r else - r))"

subsection \<open>Arithmetic and comparison operators\<close>

fun js_neg :: "number \<Rightarrow> number" where
  "js_neg NaN = NaN"
| "js_neg PosInf = NegInf"
| "js_neg NegInf = PosInf"
| "js_neg (Fin a) = Fin (- a)"

fun js_add :: "number \<Rightarrow> number \<Rightarrow> number" where
  "js_add NaN _ = NaN"
| "js_add _ NaN = NaN"
| "js_add PosInf NegInf = NaN"
| "js_add NegInf PosInf = NaN"
| "js_add PosInf _ = PosInf"
| "js_add NegInf _ = NegInf"
| "js_add _ PosInf = PosInf"
| "js_add _ NegInf = NegInf"
| "js_add (Fin a) (Fin b) = fl (a + b)"

definition js_sub :: "number \<Rightarrow> number \<Rightarrow> number" where
  "js_sub a b = js_add a (js_neg b)"

text \<open>The sign of a number: 1, -1, or 0 for a zero; NaN has none.\<close>

fun js_sign :: "number \<Rightarrow> int" where
  "js_sign NaN = 0"
| "js_sign PosInf = 1"
| "js_sign NegInf = - 1"
| "js_sign (Fin a) = sgn \<lfloor>sgn a\<rfloor>"

definition inf_of_sign :: "int \<Rightarrow> number" where
  "inf_of_sign s = (if s = 0 then NaN else if 0 < s then PosInf else NegInf)"

fun js_mul :: "number \<Rightarrow> number \<Rightarrow> number" where
  "js_mul NaN _ = NaN"
| "js_mul _ NaN = NaN"
| "js_mul (Fin a) (Fin b) = fl (a * b)"
| "js_mul a b = inf_of_sign (js_sign a * js_sign b)"

text \<open>
  Division. A finite divisor that is zero is read as the positive zero; the basic
  strategy never reaches that case.
\<close>

fun js_div :: "number \<Rightarrow> number \<Rightarrow> number" where
  "js_div NaN _ = NaN"
| "js_div _ NaN = NaN"
| "js_div (Fin a) (Fin b) = (if b = 0 then inf_of_sign (js_sign (Fin a)) else fl (a / b))"
| "js_div (Fin a) _ = Fin 0"
| "js_div a (Fin b) = inf_of_sign (js_sign a * (if b < 0 then - 1 else 1))"
| "js_div _ _ = NaN"

text \<open>The remainder operator \<open>%\<close>: the result takes the sign of the dividend and is exact.\<close>

fun js_mod :: "number \<Rightarrow> number \<Rightarrow> number" where
  "js_mod NaN _ = NaN"
| "js_mod _ NaN = NaN"
| "js_mod PosInf _ = NaN"
| "js_mod NegInf _ = NaN"
| "js_mod (Fin a) (Fin b) =
     (if b = 0 then NaN
      else let t = a / b; k = (if 0 \<le> t then \<lfloor>t\<rfloor> else \<lceil>t\<rceil>)
           in fl (a - b * of_int k))"
| "js_mod (Fin a) _ = Fin a"

fun js_less :: "number \<Rightarrow> number \<Rightarrow> bool" where
  "js_less NaN _ = False"
| "js_less _ NaN = False"
| "js_less (Fin a) (Fin b) = (a < b)"
| "js_less PosInf _ = False"
| "js_less _ PosInf = True"
| "js_less NegInf NegInf = False"
| "js_less NegInf _ = True"
| "js_less _ NegInf = False"

definition js_le :: "number \<Rightarrow> number \<Rightarrow> bool" where
  "js_le a b = (js_less a b \<or> (a \<noteq> NaN \<and> a = b))"

definition js_gt :: "number \<Rightarrow> number \<Rightarrow> bool" where
  "js_gt a b = js_less b a"

definition js_ge :: "number \<Rightarrow> number \<Rightarrow> bool" where
  "js_ge a b = js_le b a"

text \<open>Strict equality \<open>===\<close> on numbers: NaN equals nothing.\<close>

definition js_eq :: "number \<Rightarrow> number \<Rightarrow> bool" where
  "js_eq a b = (a \<noteq> NaN \<and> a = b)"

definition isNaN :: "number \<Rightarrow> bool" where
  "isNaN x = (x = NaN)"

fun isFinite :: "number \<Rightarrow> bool" where
  "isFinite (Fin _) = True"
| "isFinite _ = False"

fun isInteger :: "number \<Rightarrow> bool" where
  "isInteger (Fin a) = (of_int \<lfloor>a\<rfloor> = a)"
| "isInteger _ = False"

fun js_abs :: "number \<Rightarrow> number" where
  "js_abs NaN = NaN"
| "js_abs PosInf = PosInf"
| "js_abs NegInf = PosInf"
| "js_abs (Fin a) = Fin \<bar>a\<bar>"

subsection \<open>Numbers and strings\<close>

text \<open>Decimal digits of a natural number, most significant first.\<close>

definition digit_char :: "nat \<Rightarrow> char" where
  "digit_char d = ''0123456789'' ! d"

fun digits :: "nat \<Rightarrow> string" where
  "digits n = (if n < 10 then [digit_char n] else digits (n div 10) @ [digit_char (n mod 10)])"

declare digits.simps [simp del]

definition is_digit :: "char \<Rightarrow> bool" where
  "is_digit c = ((48 :: nat) \<le> of_char c \<and> of_char c \<le> (57 :: nat))"

definition digit_val :: "char \<Rightarrow> nat" where
  "digit_val c = of_char c - 48"

definition digits_val :: "string \<Rightarrow> nat" where
  "digits_val ds = foldl (\<lambda>a c. 10 * a + digit_val c) 0 ds"

text \<open>
  \<open>Number::toString\<close> (radix 10) of ECMAScript. For a positive finite value it takes the
  decimal \<open>s * 10 ^ (n - k)\<close> with the fewest digits \<open>k\<close> that rounds back to the value
  (the closest such decimal, the even one on a tie), and prints it in positional
  notation when \<open>-6 < n \<le> 21\<close> and in exponent notation otherwise. \<open>candidate v k\<close> is
  the \<open>k\<close>-digit decimal if there is one; seventeen digits always suffice for a double.
\<close>

definition nearest :: "rat \<Rightarrow> nat \<Rightarrow> bool \<Rightarrow> (nat \<times> int) option" where
  "nearest v k force =
     (let n = ilog 10 v + 1;
          sc = pow10 (n - int k);
          t = v / sc;
          lo = \<lfloor>t\<rfloor>;
          hi = lo + 1;
          oklo = (force \<or> fl (of_int lo * sc) = Fin v);
          okhi = (force \<or> fl (of_int hi * sc) = Fin v);
          dlo = t - of_int lo;
          dhi = of_int hi - t;
          pick_lo = (oklo \<and> (\<not> okhi \<or> dlo < dhi \<or> (dlo = dhi \<and> even lo)))
      in if pick_lo then Some (nat lo, n)
         else if okhi then (if hi = 10 ^ k then Some (10 ^ (k - 1), n + 1) else Some (nat hi, n))
         else None)"

definition candidate :: "rat \<Rightarrow> nat \<Rightarrow> (nat \<times> int) option" where
  "candidate v k = nearest v k False"

fun shortest_from :: "nat \<Rightarrow> nat \<Rightarrow> rat \<Rightarrow> nat \<times> int" where
  "shortest_from 0 k v = (case nearest v k True of Some r \<Rightarrow> r | None \<Rightarrow> (0, 0))"
| "shortest_from (Suc fuel) k v =
     (case candidate v k of Some r \<Rightarrow> r | None \<Rightarrow> shortest_from fuel (Suc k) v)"

definition shortest :: "rat \<Rightarrow> nat \<times> int" where
  "shortest v = shortest_from 16 1 v"

definition exponent_string :: "int \<Rightarrow> string" where
  "exponent_string e = (if e < 0 then ''-'' else ''+'') @ digits (nat \<bar>e\<bar>)"

definition positive_toString :: "rat \<Rightarrow> string" where
  "positive_toString v =
     (let (s, n) = shortest v; ds = digits s; k = int (length ds)
      in if k \<le> n \<and> n \<le> 21 then ds @ replicate (nat (n - k)) (CHR ''0'')
         else if 0 < n \<and> n \<le> 21 then take (nat n) ds @ ''.'' @ drop (nat n) ds
         else if - 6 < n \<and> n \<le> 0 then ''0.'' @ replicate (nat (- n)) (CHR ''0'') @ ds
         else if k = 1 then ds @ ''e'' @ exponent_string (n - 1)
         else take 1 ds @ ''.'' @ drop 1 ds @ ''e'' @ exponent_string (n - 1))"

fun toString :: "number \<Rightarrow> string" where
  "toString NaN = ''NaN''"
| "toString PosInf = ''Infinity''"
| "toString NegInf = ''-Infinity''"
| "toString (Fin a) =
     (if a = 0 then ''0''
      else if a < 0 then ''-'' @ positive_toString (- a)
      else positive_toString a)"

text \<open>
  \<open>Number.prototype.toExponential(f)\<close>: one digit, a point and \<open>f\<close> fraction digits of the
  exact value, rounded half up in magnitude, then the exponent.
\<close>

definition exponential_parts :: "nat \<Rightarrow> rat \<Rightarrow> nat \<times> int" where
  "exponential_parts f x =
     (if x = 0 then (0, 0)
      else let e = ilog 10 x;
               n = nat \<lfloor>x / pow10 (e - int f) + 1 / 2\<rfloor>
           in if n = 10 ^ (f + 1) then (10 ^ f, e + 1) else (n, e))"

fun toExponential :: "nat \<Rightarrow> number \<Rightarrow> string" where
  "toExponential f NaN = ''NaN''"
| "toExponential f PosInf = ''Infinity''"
| "toExponential f NegInf = ''-Infinity''"
| "toExponential f (Fin a) =
     (let (n, e) = exponential_parts f \<bar>a\<bar>;
          m = (if a = 0 then replicate (f + 1) (CHR ''0'') else digits n);
          m' = (if f \<noteq> 0 then take 1 m @ ''.'' @ drop 1 m else m);
          d = (if e = 0 then ''+0'' else exponent_string e)
      in (if a < 0 then ''-'' else []) @ m' @ ''e'' @ d)"

text \<open>
  \<open>Number.prototype.toLocaleString()\<close> with no arguments, in the locale en-US, as the
  engines implement it: the number is taken as the shortest decimal that reads back as
  it (the digits of \<open>toString\<close>, followed by zeros when the number is large), which is
  rounded to at most three fraction digits, half away from zero, and printed with a
  grouping separator every three integer digits. The program only calls it on finite
  values.
\<close>

fun group3 :: "string \<Rightarrow> string" where
  "group3 ds =
     (if length ds \<le> 3 then ds
      else group3 (take (length ds - 3) ds) @ '','' @ drop (length ds - 3) ds)"

declare group3.simps [simp del]

definition strip_zeros :: "string \<Rightarrow> string" where
  "strip_zeros ds = rev (dropWhile (\<lambda>c. c = CHR ''0'') (rev ds))"

definition shortest_decimal :: "rat \<Rightarrow> rat" where
  "shortest_decimal v = (let (s, n) = shortest v in of_nat s * pow10 (n - int (length (digits s))))"

definition toLocaleString :: "rat \<Rightarrow> string" where
  "toLocaleString a =
     (if a = 0 then ''0''
      else
        let m = nat \<lfloor>shortest_decimal \<bar>a\<bar> * 1000 + 1 / 2\<rfloor>;
            ip = m div 1000;
            fp = m mod 1000;
            fs = strip_zeros (drop 1 (digits (1000 + fp)))
        in (if a < 0 then ''-'' else []) @ group3 (digits ip) @ (if fs = [] then [] else ''.'' @ fs))"

text \<open>
  \<open>parseFloat\<close>: skips leading white space and reads the longest prefix that is a decimal
  literal (sign, \<open>Infinity\<close> or digits with an optional fraction and exponent); NaN when
  there is none. The value is rounded to a double.
\<close>

definition is_space :: "char \<Rightarrow> bool" where
  "is_space c = (of_char c \<in> {9, 10, 11, 12, 13, 32 :: nat})"

definition split_sign :: "string \<Rightarrow> bool \<times> string" where
  "split_sign s =
     (case s of
        c # r \<Rightarrow> if c = CHR ''-'' then (True, r) else if c = CHR ''+'' then (False, r) else (False, s)
      | [] \<Rightarrow> (False, s))"

definition parse_exponent :: "string \<Rightarrow> int" where
  "parse_exponent s =
     (case s of
        c # r \<Rightarrow>
          if c = CHR ''e'' \<or> c = CHR ''E'' then
            (let (neg, r') = split_sign r; ds = takeWhile is_digit r'
             in if ds = [] then 0 else if neg then - int (digits_val ds) else int (digits_val ds))
          else 0
      | [] \<Rightarrow> 0)"

definition parseFloat :: "string \<Rightarrow> number" where
  "parseFloat s =
     (let (neg, t) = split_sign (dropWhile is_space s)
      in if take 8 t = ''Infinity'' then (if neg then NegInf else PosInf)
         else
           let ip = takeWhile is_digit t;
               r1 = dropWhile is_digit t;
               has_point = (r1 \<noteq> [] \<and> hd r1 = CHR ''.'');
               fp = (if has_point then takeWhile is_digit (tl r1) else []);
               r2 = (if has_point then dropWhile is_digit (tl r1) else r1)
           in if ip = [] \<and> fp = [] then NaN
              else
                let q = of_nat (digits_val (ip @ fp)) * pow10 (parse_exponent r2 - int (length fp))
                in fl (if neg then - q else q))"

section \<open>Calculation strategies\<close>

text \<open>
  Every exception the program raises is \<open>new Error(message)\<close>. The names of the error
  taxonomy stand for the messages of the source.
\<close>

datatype error = Error string | TypeError string

fun message :: "error \<Rightarrow> string" where
  "message (Error msg) = msg"
| "message (TypeError msg) = msg"

definition DivisionByZero :: error where
  "DivisionByZero = Error ''Division by zero''"

definition InvalidLogarithm :: error where
  "InvalidLogarithm = Error ''Invalid logarithm input''"

definition InvalidNaturalLogarithm :: error where
  "InvalidNaturalLogarithm = Error ''Invalid natural logarithm input''"

definition InvalidSquareRoot :: error where
  "InvalidSquareRoot = Error ''Invalid square root input''"

definition InvalidFactorial :: error where
  "InvalidFactorial = Error ''Invalid factorial input''"

definition InvalidNumber :: error where
  "InvalidNumber = Error ''Invalid number''"

definition DomainError :: "error \<Rightarrow> bool" where
  "DomainError e =
     (e = InvalidLogarithm \<or> e = InvalidNaturalLogarithm \<or> e = InvalidSquareRoot \<or> e = InvalidFactorial)"

text \<open>
  The functions of the host's \<open>Math\<close> object that ECMAScript leaves
  implementation-approximated are a parameter of the model, and so are the messages of
  the \<open>TypeError\<close> exceptions the host raises: \<open>TypeError_message\<close> maps the expression
  that is called without being a function or that is undefined when a property of it
  is read, or the name of the built-in function that rejects its argument, to the
  message. The constants \<open>Math.PI\<close> and \<open>Math.E\<close> are the
  doubles nearest to the real numbers.
\<close>

record host =
  Math_sin :: "number \<Rightarrow> number"
  Math_cos :: "number \<Rightarrow> number"
  Math_tan :: "number \<Rightarrow> number"
  Math_log10 :: "number \<Rightarrow> number"
  Math_log :: "number \<Rightarrow> number"
  Math_sqrt :: "number \<Rightarrow> number"
  Math_pow :: "number \<Rightarrow> number \<Rightarrow> number"
  TypeError_message :: "string \<Rightarrow> string"

definition Math_PI :: number where
  "Math_PI = Fin (884279719003555 / 281474976710656)"

definition Math_E :: number where
  "Math_E = Fin (6121026514868073 / 2251799813685248)"

subsection \<open>The basic strategy\<close>

text \<open>
  \<open>basic_operations\<close> and \<open>scientific_operations\<close> are the own properties of the two
  object literals \<open>operations\<close>; reading a property of such an object also finds what it
  inherits, see \<open>get_property\<close> below.
\<close>

definition basic_divide :: "number \<Rightarrow> number \<Rightarrow> error + number" where
  "basic_divide a b = (if js_eq b (Fin 0) then Inl DivisionByZero else Inr (js_div a b))"

definition basic_operations :: "string \<Rightarrow> (number \<Rightarrow> number \<Rightarrow> error + number) option" where
  "basic_operations op =
     (if op = ''+'' then Some (\<lambda>a b. Inr (js_add a b))
      else if op = ''-'' then Some (\<lambda>a b. Inr (js_sub a b))
      else if op = ''*'' then Some (\<lambda>a b. Inr (js_mul a b))
      else if op = ''/'' then Some basic_divide
      else if op = ''%'' then Some (\<lambda>a b. Inr (js_mod a b))
      else None)"

subsection \<open>The scientific strategy\<close>

definition to_radians :: "number \<Rightarrow> number" where
  "to_radians x = js_div (js_mul x Math_PI) (Fin 180)"

text \<open>The loop \<open>for (let i = 2; i <= x; i++) result *= i\<close>, for a finite \<open>x\<close>.\<close>

function factorial_loop :: "int \<Rightarrow> rat \<Rightarrow> number \<Rightarrow> number" where
  "factorial_loop i x r =
     (if of_int i \<le> x then factorial_loop (i + 1) x (js_mul r (Fin (of_int i))) else r)"
  by pat_completeness auto
termination
  by (relation "measure (\<lambda>(i, x, r). nat (\<lfloor>x\<rfloor> + 1 - i))") (auto simp: le_floor_iff)

declare factorial_loop.simps [simp del]

definition factorial :: "number \<Rightarrow> error + number" where
  "factorial x =
     (if js_less x (Fin 0) \<or> \<not> isInteger x \<or> js_gt x (Fin 170) then Inl InvalidFactorial
      else if js_eq x (Fin 0) \<or> js_eq x (Fin 1) then Inr (Fin 1)
      else case x of Fin q \<Rightarrow> Inr (factorial_loop 2 q (Fin 1)) | _ \<Rightarrow> Inr (Fin 1))"

definition scientific_operations :: "host \<Rightarrow> string \<Rightarrow> (number \<Rightarrow> error + number) option" where
  "scientific_operations H f =
     (if f = ''sin'' then Some (\<lambda>x. Inr (Math_sin H (to_radians x)))
      else if f = ''cos'' then Some (\<lambda>x. Inr (Math_cos H (to_radians x)))
      else if f = ''tan'' then Some (\<lambda>x. Inr (Math_tan H (to_radians x)))
      else if f = ''log'' then
        Some (\<lambda>x. if js_le x (Fin 0) then Inl InvalidLogarithm else Inr (Math_log10 H x))
      else if f = ''ln'' then
        Some (\<lambda>x. if js_le x (Fin 0) then Inl InvalidNaturalLogarithm else Inr (Math_log H x))
      else if f = ''sqrt'' then
        Some (\<lambda>x. if js_less x (Fin 0) then Inl InvalidSquareRoot else Inr (Math_sqrt H x))
      else if f = ''power'' then Some (\<lambda>x. Inr (Math_pow H x (Fin 2)))
      else if f = ''factorial'' then Some factorial
      else None)"

subsection \<open>Reading and calling a property of a table\<close>

text \<open>
  The two tables are object literals, so their prototype is \<open>Object.prototype\<close>: the
  property read \<open>operations[op]\<close> finds the table's own function of that name or else
  the member of \<open>Object.prototype\<close> of that name, and is \<open>undefined\<close> for every other name.
  \<open>Object_prototype\<close> lists the members of \<open>Object.prototype\<close> in ECMAScript, with the
  legacy ones that every browser has. Every property found is truthy.
\<close>

definition Object_prototype :: "string list" where
  "Object_prototype =
     [''constructor'', ''hasOwnProperty'', ''isPrototypeOf'', ''propertyIsEnumerable'',
      ''toLocaleString'', ''toString'', ''valueOf'', ''__proto__'', ''__defineGetter__'',
      ''__defineSetter__'', ''__lookupGetter__'', ''__lookupSetter__'']"

datatype 'f property = Own 'f | Inherited string

definition get_property :: "(string \<Rightarrow> 'f option) \<Rightarrow> string \<Rightarrow> 'f property option" where
  "get_property table key =
     (case table key of
        Some f \<Rightarrow> Some (Own f)
      | None \<Rightarrow> if key \<in> set Object_prototype then Some (Inherited key) else None)"

text \<open>
  The values that a call \<open>operations[op](a, b)\<close> returns: a number from a function of
  the table; from a member of \<open>Object.prototype\<close> the wrapper object \<open>Object(a)\<close> of the
  first argument, a boolean, \<open>undefined\<close>, the string \<open>[object Object]\<close> or the table
  itself. \<open>ToNumber\<close> and \<open>ToString\<close> are the conversions of ECMAScript on these values;
  the table converts to a primitive through its inherited \<open>toString\<close>. On a number, a
  wrapper and a boolean the method call \<open>v.toString()\<close> returns \<open>ToString v\<close> as well.
\<close>

datatype jsvalue =
    Number number
  | NumberObject number
  | Boolean bool
  | Undefined
  | ObjectObject
  | Operations

fun ToNumber :: "jsvalue \<Rightarrow> number" where
  "ToNumber (Number n) = n"
| "ToNumber (NumberObject n) = n"
| "ToNumber (Boolean b) = (if b then Fin 1 else Fin 0)"
| "ToNumber Undefined = NaN"
| "ToNumber ObjectObject = NaN"
| "ToNumber Operations = NaN"

fun ToString :: "jsvalue \<Rightarrow> string" where
  "ToString (Number n) = toString n"
| "ToString (NumberObject n) = toString n"
| "ToString (Boolean b) = (if b then ''true'' else ''false'')"
| "ToString Undefined = ''undefined''"
| "ToString ObjectObject = ''[object Object]''"
| "ToString Operations = ''[object Object]''"

text \<open>
  The call of a member of \<open>Object.prototype\<close> as a method of a table, with the number \<open>a\<close>
  as its first argument; no member reads a second one, except that \<open>__defineGetter__\<close>
  and \<open>__defineSetter__\<close> reject it because it is not a function. \<open>constructor\<close> is
  \<open>Object\<close>, which wraps the number. \<open>hasOwnProperty\<close> and \<open>propertyIsEnumerable\<close> look
  for an own property of the table named by the string of \<open>a\<close>; \<open>isPrototypeOf\<close> is
  false of a primitive. \<open>toString\<close> and \<open>toLocaleString\<close> return the tag of the table,
  \<open>valueOf\<close> the table. \<open>__lookupGetter__\<close> and \<open>__lookupSetter__\<close> return \<open>undefined\<close>, as
  no accessor is named by the string of a number. \<open>__proto__\<close> reads as the object
  \<open>Object.prototype\<close>, and calling it is a \<open>TypeError\<close> for the expression \<open>callee\<close>.
\<close>

definition Object_prototype_call ::
  "host \<Rightarrow> string \<Rightarrow> (string \<Rightarrow> 'f option) \<Rightarrow> string \<Rightarrow> number \<Rightarrow> error + jsvalue" where
  "Object_prototype_call H callee table name a =
     (if name = ''constructor'' then Inr (NumberObject a)
      else if name = ''hasOwnProperty'' \<or> name = ''propertyIsEnumerable'' then
        Inr (Boolean (case table (toString a) of Some f \<Rightarrow> True | None \<Rightarrow> False))
      else if name = ''isPrototypeOf'' then Inr (Boolean False)
      else if name = ''toString'' \<or> name = ''toLocaleString'' then Inr ObjectObject
      else if name = ''valueOf'' then Inr Operations
      else if name = ''__lookupGetter__'' \<or> name = ''__lookupSetter__'' then Inr Undefined
      else if name = ''__defineGetter__'' \<or> name = ''__defineSetter__'' then
        Inl (TypeError (TypeError_message H name))
      else Inl (TypeError (TypeError_message H callee)))"

text \<open>
  Calling the property that was read: \<open>apply\<close> passes the arguments to a function of
  the table.
\<close>

definition invoke ::
  "host \<Rightarrow> string \<Rightarrow> (string \<Rightarrow> 'f option) \<Rightarrow> 'f property \<Rightarrow> ('f \<Rightarrow> error + number) \<Rightarrow> number
     \<Rightarrow> error + jsvalue" where
  "invoke H callee table p apply a =
     (case p of
        Own f \<Rightarrow> map_sum id Number (apply f)
      | Inherited name \<Rightarrow> Object_prototype_call H callee table name a)"

section \<open>The calculator model\<close>

text \<open>
  The private state of \<open>CalculatorModel\<close>. The collaborators that only receive calls (the
  view, the logger, the storage repository, whose \<open>save\<close> swallows every exception) are
  recorded as a trace of those calls, oldest first; a logger call is recorded by its
  level and message. The view's functions are taken not
  to throw (its DOM elements exist). A history item carries the two clock readings of
  its creation, which the caller passes in.
\<close>

record historyItem =
  item_id :: nat
  expression :: string
  result :: string
  timestamp :: string

type_synonym clock = "nat \<times> string"

datatype effect =
    UpdateDisplay string string
  | UpdateMemoryIndicator bool
  | UpdateHistoryPanel "historyItem list"
  | ShowError string
  | ClearError
  | ShowToast string string
  | AnnounceToScreenReader string
  | LoggerLog string string
  | StorageSave number "historyItem list"

text \<open>
  The current strategy is a key that \<open>setStrategy\<close> found in \<open>CalculationStrategies\<close>:
  \<open>basic\<close>, \<open>scientific\<close>, or the name of a member of \<open>Object.prototype\<close>, which that
  object literal inherits.
\<close>

datatype strategy_name = basic | scientific | inherited string

record model =
  currentValue :: string
  previousValue :: string
  operator :: "string option"
  isWaitingForOperand :: bool
  history :: string
  memoryValue :: number
  calculationHistory :: "historyItem list"
  currentStrategy :: strategy_name
  effects :: "effect list"

definition call :: "effect \<Rightarrow> model \<Rightarrow> model" where
  "call e m = m\<lparr>effects := effects m @ [e]\<rparr>"

text \<open>The initial state of the module, before anything is loaded from storage.\<close>

definition initial :: model where
  "initial =
     \<lparr>currentValue = ''0'', previousValue = '''', operator = None, isWaitingForOperand = False,
      history = '''', memoryValue = Fin 0, calculationHistory = [], currentStrategy = basic,
      effects = []\<rparr>"

text \<open>
  The engine state of the specification: the six fields \<open>getState\<close> copies. The snapshot
  is a fresh object of primitive values.
\<close>

record snapshot =
  s_currentValue :: string
  s_previousValue :: string
  s_operator :: "string option"
  s_isWaitingForOperand :: bool
  s_history :: string
  s_memoryValue :: number

definition getState :: "model \<Rightarrow> snapshot" where
  "getState m =
     \<lparr>s_currentValue = currentValue m, s_previousValue = previousValue m,
      s_operator = operator m, s_isWaitingForOperand = isWaitingForOperand m,
      s_history = history m, s_memoryValue = memoryValue m\<rparr>"

subsection \<open>Events\<close>

text \<open>
  Modelled from the spec: the class \<open>EventEmitter\<close> is not among the sources, and
  \<open>eventEmitter.emit\<close> is taken as the publish of the change bus, which runs the handlers
  subscribed to the topic. These are the listeners that \<open>initializeModelListeners\<close>
  subscribes; no listener is subscribed to \<open>stateChanged\<close>.
\<close>

definition updateView :: "model \<Rightarrow> model" where
  "updateView m =
     call (UpdateMemoryIndicator (memoryValue m \<noteq> Fin 0))
       (call (UpdateDisplay (currentValue m) (history m)) m)"

definition emit_valueChanged :: "string \<Rightarrow> model \<Rightarrow> model" where
  "emit_valueChanged v m = call (UpdateDisplay v (history m)) m"

definition emit_memoryChanged :: "number \<Rightarrow> model \<Rightarrow> model" where
  "emit_memoryChanged v m = call (UpdateMemoryIndicator (v \<noteq> Fin 0)) m"

definition emit_historyUpdated :: "historyItem list \<Rightarrow> model \<Rightarrow> model" where
  "emit_historyUpdated h m = call (UpdateHistoryPanel h) m"

definition emit_reset :: "model \<Rightarrow> model" where
  "emit_reset m = call (ShowToast ''Calculator reset'' ''success'') (updateView m)"

definition setState :: "snapshot \<Rightarrow> model \<Rightarrow> model" where
  "setState s m =
     m\<lparr>currentValue := s_currentValue s, previousValue := s_previousValue s,
       operator := s_operator s, isWaitingForOperand := s_isWaitingForOperand s,
       history := s_history s, memoryValue := s_memoryValue s\<rparr>"

subsection \<open>Private methods\<close>

definition saveState :: "model \<Rightarrow> model" where
  "saveState m = call (StorageSave (memoryValue m) (calculationHistory m)) m"

text \<open>
  \<open>formatNumber\<close> receives whatever the operation returned. \<open>isNaN\<close>, \<open>isFinite\<close>,
  \<open>Number\<close> and \<open>Math.abs\<close> convert their argument to a number; the value has passed the
  first test when its methods \<open>toString\<close> and \<open>toLocaleString\<close> are called.
\<close>

definition formatNumber :: "jsvalue \<Rightarrow> error + string" where
  "formatNumber number =
     (let n = ToNumber number
      in if isNaN n \<or> \<not> isFinite n then Inl InvalidNumber
         else
           let numStr = ToString number
           in if 12 < length numStr then Inr (toExponential 5 n)
              else if js_ge (js_abs n) (Fin 1000) \<and> CHR ''.'' \<notin> set numStr
                then Inr (case n of Fin a \<Rightarrow> toLocaleString a | _ \<Rightarrow> numStr)
              else Inr numStr)"

definition addToHistory :: "clock \<Rightarrow> string \<Rightarrow> string \<Rightarrow> model \<Rightarrow> model" where
  "addToHistory clk e r m =
     (let historyItem = \<lparr>item_id = fst clk, expression = e, result = r, timestamp = snd clk\<rparr>;
          h = historyItem # calculationHistory m;
          h' = (if 100 < length h then take 100 h else h);
          m' = saveState (m\<lparr>calculationHistory := h'\<rparr>)
      in emit_historyUpdated h' m')"

subsection \<open>Public interface\<close>

definition setCurrentValue :: "string \<Rightarrow> model \<Rightarrow> model" where
  "setCurrentValue v m = emit_valueChanged v (m\<lparr>currentValue := v\<rparr>)"

definition setPreviousValue :: "string \<Rightarrow> model \<Rightarrow> model" where
  "setPreviousValue v m = m\<lparr>previousValue := v\<rparr>"

definition setOperator :: "string option \<Rightarrow> model \<Rightarrow> model" where
  "setOperator op m = m\<lparr>operator := op\<rparr>"

definition setHistory :: "string \<Rightarrow> model \<Rightarrow> model" where
  "setHistory h m = m\<lparr>history := h\<rparr>"

definition setWaitingForOperand :: "bool \<Rightarrow> model \<Rightarrow> model" where
  "setWaitingForOperand w m = m\<lparr>isWaitingForOperand := w\<rparr>"

text \<open>
  \<open>setStrategy\<close> accepts every key that it finds in \<open>CalculationStrategies\<close>, inherited
  members included.
\<close>

definition CalculationStrategies :: "string \<Rightarrow> strategy_name option" where
  "CalculationStrategies k =
     (if k = ''basic'' then Some basic else if k = ''scientific'' then Some scientific else None)"

definition setStrategy :: "string \<Rightarrow> model \<Rightarrow> error + model" where
  "setStrategy strategy m =
     (case get_property CalculationStrategies strategy of
        None \<Rightarrow> Inl (Error (''Unknown strategy: '' @ strategy))
      | Some p \<Rightarrow>
          Inr (call (LoggerLog ''info'' (''Strategy changed to: '' @ strategy))
                 (m\<lparr>currentStrategy := (case p of Own s \<Rightarrow> s | Inherited name \<Rightarrow> inherited name)\<rparr>)))"

text \<open>
  \<open>CalculatorModel.calculate\<close>: the operation is read from the table of the current
  strategy and called with both operands; in the scientific strategy the unary
  function receives the first operand. A member of \<open>Object.prototype\<close> taken as the
  strategy has no property \<open>operations\<close>, and reading an operation from \<open>undefined\<close> is a
  \<open>TypeError\<close>. An exception is logged and thrown again.
\<close>

definition operations :: "host \<Rightarrow> strategy_name \<Rightarrow> string \<Rightarrow> (number \<Rightarrow> number \<Rightarrow> error + jsvalue) option" where
  "operations H s op =
     (case s of
        basic \<Rightarrow>
          map_option (\<lambda>p a b. invoke H ''strategy.operations[op]'' basic_operations p (\<lambda>f. f a b) a)
            (get_property basic_operations op)
      | scientific \<Rightarrow>
          map_option (\<lambda>p a b. invoke H ''strategy.operations[op]'' (scientific_operations H) p (\<lambda>f. f a) a)
            (get_property (scientific_operations H) op)
      | inherited name \<Rightarrow>
          Some (\<lambda>a b. Inl (TypeError (TypeError_message H ''strategy.operations''))))"

definition calculate :: "host \<Rightarrow> string \<Rightarrow> number \<Rightarrow> number \<Rightarrow> model \<Rightarrow> (error + jsvalue) \<times> model" where
  "calculate H op a b m =
     (let r = (case operations H (currentStrategy m) op of
                 None \<Rightarrow> Inl (Error (''Unknown operation: '' @ op))
               | Some f \<Rightarrow> f a b)
      in case r of
           Inl e \<Rightarrow> (Inl e, call (LoggerLog ''error'' ''Calculation error'') m)
         | Inr v \<Rightarrow>
             (Inr v,
              call (LoggerLog ''info''
                (''Calculation: '' @ toString a @ '' '' @ op @ '' '' @ toString b @ '' = '' @ ToString v)) m))"

definition scientificCalculate :: "host \<Rightarrow> string \<Rightarrow> number \<Rightarrow> model \<Rightarrow> (error + jsvalue) \<times> model" where
  "scientificCalculate H func v m =
     (let r = (case get_property (scientific_operations H) func of
                 None \<Rightarrow> Inl (Error (''Unknown function: '' @ func))
               | Some p \<Rightarrow>
                   invoke H ''strategy.operations[func]'' (scientific_operations H) p (\<lambda>f. f v) v)
      in case r of
           Inl e \<Rightarrow> (Inl e, call (LoggerLog ''error'' ''Scientific calculation error'') m)
         | Inr x \<Rightarrow>
             (Inr x,
              call (LoggerLog ''info''
                (''Scientific calculation: '' @ func @ ''('' @ toString v @ '') = '' @ ToString x)) m))"

definition reset :: "model \<Rightarrow> model" where
  "reset m =
     call (LoggerLog ''info'' ''Calculator reset'')
       (emit_reset
          (m\<lparr>currentValue := ''0'', previousValue := '''', operator := None,
             isWaitingForOperand := False, history := ''''\<rparr>))"

section \<open>The calculator controller\<close>

text \<open>The controller's \<open>formatNumber\<close>: a formatting error is shown and replaced by \<open>0\<close>.\<close>

definition formatNumber_ctl :: "jsvalue \<Rightarrow> model \<Rightarrow> string \<times> model" where
  "formatNumber_ctl n m =
     (case formatNumber n of
        Inr s \<Rightarrow> (s, m)
      | Inl e \<Rightarrow> (''0'', call (ShowError ''Invalid number'') m))"

text \<open>
  \<open>inputNumber\<close>. Its argument is a string (a key or a data attribute), so the type check
  of \<open>setCurrentValue\<close> cannot fail.
\<close>

definition inputNumber :: "string \<Rightarrow> model \<Rightarrow> model" where
  "inputNumber num m0 =
     (let m = call ClearError m0
      in if isWaitingForOperand m then
           updateView (setWaitingForOperand False (setCurrentValue num m))
         else
           let current = currentValue m;
               newValue = (if current = ''0'' then num else current @ num)
           in if 15 < length newValue then call (ShowToast ''Maximum digits reached'' ''error'') m
              else updateView (setCurrentValue newValue m))"

text \<open>The controller's \<open>calculate\<close>, the engine's \<open>evaluate()\<close>.\<close>

definition evaluate :: "host \<Rightarrow> clock \<Rightarrow> model \<Rightarrow> model" where
  "evaluate H clk m =
     (let current = parseFloat (currentValue m);
          previous = previousValue m
      in case operator m of
           None \<Rightarrow> m
         | Some op \<Rightarrow>
             if previous = '''' \<or> isNaN current then m
             else
               case calculate H op (parseFloat previous) current m of
                 (Inl e, m1) \<Rightarrow> call (ShowError (message e)) m1
               | (Inr r, m1) \<Rightarrow>
                   let (formatted, m2) = formatNumber_ctl r m1;
                       expression = previous @ '' '' @ op @ '' '' @ toString current;
                       m3 = addToHistory clk expression formatted m2;
                       m4 = setCurrentValue formatted m3;
                       m5 = setPreviousValue '''' m4;
                       m6 = setOperator None m5;
                       m7 = setWaitingForOperand True m6;
                       m8 = setHistory (expression @ '' ='') m7;
                       m9 = updateView m8
                   in call (AnnounceToScreenReader (''Result: '' @ formatted)) m9)"

text \<open>\<open>performScientificFunction\<close>, the engine's \<open>evaluateScientific(fn)\<close>.\<close>

definition finish_scientific :: "clock \<Rightarrow> string \<Rightarrow> jsvalue \<Rightarrow> model \<Rightarrow> model" where
  "finish_scientific clk func r m =
     (let (formatted, m1) = formatNumber_ctl r m;
          m2 = setCurrentValue formatted m1;
          m3 = setWaitingForOperand True m2;
          expression = (if func = ''pi'' \<or> func = ''e'' then func
                        else func @ ''('' @ currentValue m3 @ '')'');
          m4 = addToHistory clk expression formatted m3;
          m5 = updateView m4
      in call (AnnounceToScreenReader (func @ '' result: '' @ formatted)) m5)"

definition performScientificFunction :: "host \<Rightarrow> clock \<Rightarrow> string \<Rightarrow> model \<Rightarrow> model" where
  "performScientificFunction H clk func m0 =
     (let m = call ClearError m0
      in if func = ''pi'' then finish_scientific clk func (Number Math_PI) m
         else if func = ''e'' then finish_scientific clk func (Number Math_E) m
         else
           let current = parseFloat (currentValue m)
           in if isNaN current then call (ShowError ''Invalid input for function'') m
              else
                case scientificCalculate H func current m of
                  (Inl e, m1) \<Rightarrow> call (ShowError (message e)) m1
                | (Inr r, m1) \<Rightarrow> finish_scientific clk func r m1)"

text \<open>Entering a sequence of digits, one \<open>inputNumber\<close> per key.\<close>

definition inputNumbers :: "string list \<Rightarrow> model \<Rightarrow> model" where
  "inputNumbers ds m = fold inputNumber ds m"

text \<open>Inserting a sequence of log entries, one \<open>addCalculationToHistory\<close> each.\<close>

definition addCalculationToHistory :: "clock \<times> string \<times> string \<Rightarrow> model \<Rightarrow> model" where
  "addCalculationToHistory x m = addToHistory (fst x) (fst (snd x)) (snd (snd x)) m"

definition log_entry :: "clock \<times> string \<times> string \<Rightarrow> historyItem" where
  "log_entry x =
     \<lparr>item_id = fst (fst x), expression = fst (snd x), result = snd (snd x),
      timestamp = snd (fst x)\<rparr>"

section \<open>Command history\<close>

text \<open>
  Commands are objects: the history holds references, and \<open>execute\<close> writes the snapshot
  into the command it is given. The store maps a reference to its object. The
  calculator of a \<open>CalculationCommand\<close> is the calculator model, with \<open>getState\<close> and
  \<open>setState\<close> as above; \<open>performOperation\<close> is not a method of the module and is a
  parameter. The base class \<open>Command\<close> throws from both methods.
\<close>

type_synonym ref = nat

datatype ('o, 'a) command = Command | CalculationCommand 'o 'a "snapshot option"

record ('o, 'a) heap =
  calculator :: model
  objects :: "ref \<Rightarrow> ('o, 'a) command"

type_synonym ('o, 'a, 'r) performOperation = "'o \<Rightarrow> 'a \<Rightarrow> model \<Rightarrow> (error + 'r) \<times> model"

definition command_execute ::
  "('o, 'a, 'r) performOperation \<Rightarrow> ref \<Rightarrow> ('o, 'a) heap \<Rightarrow> (error + 'r) \<times> ('o, 'a) heap" where
  "command_execute perf r h =
     (case objects h r of
        Command \<Rightarrow> (Inl (Error ''Execute method must be implemented''), h)
      | CalculationCommand operation operand _ \<Rightarrow>
          let previousState = getState (calculator h);
              h1 = h\<lparr>objects := (objects h)(r := CalculationCommand operation operand (Some previousState))\<rparr>;
              (res, c) = perf operation operand (calculator h1)
          in (res, h1\<lparr>calculator := c\<rparr>))"

definition command_undo :: "ref \<Rightarrow> ('o, 'a) heap \<Rightarrow> (error + unit) \<times> ('o, 'a) heap" where
  "command_undo r h =
     (case objects h r of
        Command \<Rightarrow> (Inl (Error ''Undo method must be implemented''), h)
      | CalculationCommand operation operand previousState \<Rightarrow>
          (case previousState of
             Some s \<Rightarrow> (Inr (), h\<lparr>calculator := setState s (calculator h)\<rparr>)
           | None \<Rightarrow> (Inr (), h)))"

record CommandHistory =
  commands :: "ref list"
  currentIndex :: int
  maxHistory :: int

definition new_CommandHistory :: CommandHistory where
  "new_CommandHistory = \<lparr>commands = [], currentIndex = - 1, maxHistory = 50\<rparr>"

text \<open>\<open>Array.prototype.slice(0, end)\<close>: a negative \<open>end\<close> counts from the end of the array.\<close>

definition slice0 :: "'x list \<Rightarrow> int \<Rightarrow> 'x list" where
  "slice0 xs e = (if e < 0 then take (nat (int (length xs) + e)) xs else take (nat e) xs)"

definition execute ::
  "('o, 'a, 'r) performOperation \<Rightarrow> ref \<Rightarrow> CommandHistory \<times> ('o, 'a) heap
     \<Rightarrow> (error + 'r) \<times> CommandHistory \<times> ('o, 'a) heap" where
  "execute perf command st =
     (let (ch, h) = st;
          ch1 = ch\<lparr>commands := slice0 (commands ch) (currentIndex ch + 1)\<rparr>
      in case command_execute perf command h of
           (Inl e, h') \<Rightarrow> (Inl e, ch1, h')
         | (Inr res, h') \<Rightarrow>
             let ch2 = ch1\<lparr>commands := commands ch1 @ [command], currentIndex := currentIndex ch1 + 1\<rparr>;
                 ch3 = (if maxHistory ch2 < int (length (commands ch2))
                        then ch2\<lparr>commands := tl (commands ch2), currentIndex := currentIndex ch2 - 1\<rparr>
                        else ch2)
             in (Inr res, ch3, h'))"

text \<open>
  \<open>undo\<close>. Reading \<open>commands[currentIndex]\<close> past the end gives \<open>undefined\<close>, and calling
  its \<open>undo\<close> is a TypeError.
\<close>

definition undo ::
  "CommandHistory \<times> ('o, 'a) heap \<Rightarrow> (error + bool) \<times> CommandHistory \<times> ('o, 'a) heap" where
  "undo st =
     (let (ch, h) = st
      in if 0 \<le> currentIndex ch then
           (if nat (currentIndex ch) < length (commands ch) then
              (case command_undo (commands ch ! nat (currentIndex ch)) h of
                 (Inl e, h') \<Rightarrow> (Inl e, ch, h')
               | (Inr _, h') \<Rightarrow> (Inr True, ch\<lparr>currentIndex := currentIndex ch - 1\<rparr>, h'))
            else (Inl (TypeError ''Cannot read properties of undefined (reading undo)''), ch, h))
         else (Inr False, ch, h))"

definition canUndo :: "CommandHistory \<Rightarrow> bool" where
  "canUndo ch = (0 \<le> currentIndex ch)"

text \<open>The invariant of the history, with the cap of the constructor.\<close>

definition history_invariant :: "CommandHistory \<Rightarrow> bool" where
  "history_invariant ch =
     (- 1 \<le> currentIndex ch \<and> currentIndex ch < int (length (commands ch))
      \<and> length (commands ch) \<le> 50 \<and> maxHistory ch = 50)"

text \<open>
  Executing a list of commands one after the other, as a loop of \<open>execute\<close> calls that an
  exception leaves, and calling \<open>undo\<close> a number of times, collecting what it returns.
\<close>

fun execute_all ::
  "('o, 'a, 'r) performOperation \<Rightarrow> ref list \<Rightarrow> CommandHistory \<times> ('o, 'a) heap
     \<Rightarrow> (error + unit) \<times> CommandHistory \<times> ('o, 'a) heap" where
  "execute_all perf [] st = (Inr (), st)"
| "execute_all perf (c # cs) st =
     (case execute perf c st of
        (Inl e, st') \<Rightarrow> (Inl e, st')
      | (Inr _, st') \<Rightarrow> execute_all perf cs st')"

fun undo_times ::
  "nat \<Rightarrow> CommandHistory \<times> ('o, 'a) heap \<Rightarrow> (error + bool list) \<times> CommandHistory \<times> ('o, 'a) heap" where
  "undo_times 0 st = (Inr [], st)"
| "undo_times (Suc n) st =
     (case undo st of
        (Inl e, st') \<Rightarrow> (Inl e, st')
      | (Inr b, st') \<Rightarrow>
          (case undo_times n st' of
             (Inl e, st'') \<Rightarrow> (Inl e, st'')
           | (Inr bs, st'') \<Rightarrow> (Inr (b # bs), st'')))"

section \<open>Change bus\<close>











text \<open>
  A command in the history has been executed when it holds a snapshot; a state of the
  history and the store is well formed when the invariant holds and every command in
  the history has been executed. \<open>returns\<close> says that \<open>performOperation\<close> never throws.
\<close>

definition executed :: "('o, 'a) heap \<Rightarrow> ref \<Rightarrow> bool" where
  "executed h r = (\<exists>operation operand s. objects h r = CalculationCommand operation operand (Some s))"

definition well_formed :: "CommandHistory \<times> ('o, 'a) heap \<Rightarrow> bool" where
  "well_formed st = (history_invariant (fst st) \<and> (\<forall>r \<in> set (commands (fst st)). executed (snd st) r))"

definition returns :: "('o, 'a, 'r) performOperation \<Rightarrow> bool" where
  "returns perf = (\<forall>operation operand m. \<exists>res m'. perf operation operand m = (Inr res, m'))"

text \<open>A sample calculator operation, and a store of commands that were never executed.\<close>

definition show_operand :: "(unit, string, unit) performOperation" where
  "show_operand operation operand m = (Inr (), setCurrentValue operand m)"

definition fresh_commands :: "(unit, string) heap" where
  "fresh_commands = \<lparr>calculator = initial, objects = (\<lambda>r. CalculationCommand () (digits r) None)\<rparr>"

section \<open>Sequences of inputs\<close>

text \<open>
  A typed key is a one-character string. The display shows what was typed without its
  leading zeros.
\<close>

definition keys :: "string list \<Rightarrow> bool" where
  "keys ds = (\<forall>d \<in> set ds. length d = 1)"

definition without_leading_zeros :: "string \<Rightarrow> string" where
  "without_leading_zeros s =
     (let r = dropWhile (\<lambda>c. c = CHR ''0'') s in if r = [] \<and> s \<noteq> [] then ''0'' else r)"

text \<open>Inserting a list of log entries, as the loop of the repository's history test does.\<close>

definition insert_all :: "(clock \<times> string \<times> string) list \<Rightarrow> model \<Rightarrow> model" where
  "insert_all xs m = fold addCalculationToHistory xs m"

definition sample_entries :: "(clock \<times> string \<times> string) list" where
  "sample_entries = map (\<lambda>i. ((i, ''t''), digits i @ '' + 1'', digits (i + 1))) [0..<150]"

section \<open>An ideal host\<close>

text \<open>
  A host whose \<open>Math\<close> functions are correctly rounded: the double nearest to the real
  result. It is one host among those the properties below hold for, and the one the
  concrete evaluations use. \<open>Math.pow\<close> is only ever called with the exponent 2. Its
  messages are those of one engine.
\<close>

definition fl_real :: "real \<Rightarrow> number" where
  "fl_real x =
     (if x = 0 then Fin 0
      else let a = \<bar>x\<bar>;
               e = max \<lfloor>log 2 a\<rfloor> (- 1022);
               u = pow2 (e - 52);
               t = a / of_rat u;
               f = \<lfloor>t\<rfloor>;
               n = (if t - of_int f < 1 / 2 then f else if 1 / 2 < t - of_int f then f + 1
                    else if even f then f else f + 1);
               r = of_int n * u
           in if pow2 1024 \<le> r then (if 0 < x then PosInf else NegInf)
              else Fin (if 0 < x then r else - r))"

definition periodic :: "(real \<Rightarrow> real) \<Rightarrow> number \<Rightarrow> number" where
  "periodic f x = (case x of Fin q \<Rightarrow> fl_real (f (of_rat q)) | _ \<Rightarrow> NaN)"

definition on_positive :: "(real \<Rightarrow> real) \<Rightarrow> number \<Rightarrow> number" where
  "on_positive f x =
     (case x of
        Fin q \<Rightarrow> if 0 < q then fl_real (f (of_rat q)) else if q = 0 then NegInf else NaN
      | PosInf \<Rightarrow> PosInf
      | _ \<Rightarrow> NaN)"

definition ideal_sqrt :: "number \<Rightarrow> number" where
  "ideal_sqrt x =
     (case x of
        Fin q \<Rightarrow> if 0 \<le> q then fl_real (sqrt (of_rat q)) else NaN
      | PosInf \<Rightarrow> PosInf
      | _ \<Rightarrow> NaN)"

definition ideal_host :: host where
  "ideal_host =
     \<lparr>Math_sin = periodic sin, Math_cos = periodic cos, Math_tan = periodic tan,
      Math_log10 = on_positive (log 10), Math_log = on_positive ln, Math_sqrt = ideal_sqrt,
      Math_pow = (\<lambda>x y. if y = Fin 2 then js_mul x x else NaN),
      TypeError_message =
        (\<lambda>s. if s = ''__defineGetter__'' \<or> s = ''__defineSetter__''
             then ''Object.prototype.'' @ s @ '': Expecting function''
             else if s = ''strategy.operations'' then ''Cannot read properties of undefined''
             else s @ '' is not a function'')\<rparr>"

section \<open>Evaluation states\<close>

text \<open>
  The string the controller's \<open>formatNumber\<close> returns, and the state of the calculator
  after a first operand, an operator and a second operand were entered.
\<close>

definition formatted :: "jsvalue \<Rightarrow> string" where
  "formatted r = (case formatNumber r of Inr s \<Rightarrow> s | Inl e \<Rightarrow> ''0'')"

definition pending :: "string \<Rightarrow> string \<Rightarrow> string \<Rightarrow> model" where
  "pending a op b =
     initial\<lparr>currentValue := b, previousValue := a, operator := Some op, history := a @ '' '' @ op\<rparr>"

section \<open>Factorials\<close>

text \<open>
  The product \<open>1 * 2 * ... * n\<close> in double arithmetic, multiplied up from 1 with every
  product rounded. It is what \<open>factorial\<close> is compared with.
\<close>

primrec rounded_factorial :: "nat \<Rightarrow> number" where
  "rounded_factorial 0 = Fin 1"
| "rounded_factorial (Suc n) = js_mul (rounded_factorial n) (Fin (of_nat (Suc n)))"

section \<open>The shape of a formatted number\<close>


chapter \<open>Properties\<close>

section \<open>Evaluating the numeric primitives\<close>

text \<open>
  \<open>ilog\<close> is the integer logarithm, so an exponent that brackets a value determines its
  rounding; a value with at most 53 significant bits is its own rounding.
\<close>

lemma pow2_powi: "pow2 e = 2 powi e"
  by (simp add: pow2_def power_int_def inverse_eq_divide power_one_over)


lemma ilog_bounds:
  assumes b: "1 < b" and q: "0 < q"
  shows "of_nat b powi (ilog b q) \<le> q \<and> q < of_nat b powi (ilog b q + 1)"
proof (cases "1 \<le> q")
  case True
  define n where "n = nat \<lfloor>q\<rfloor>"
  define k where "k = floorlog b n"
  have n: "0 < n" "of_nat n \<le> q" "q < of_nat n + 1"
    using True by (simp_all add: n_def) linarith+
  from floorlog_bounds [OF n(1) b] have fb: "b ^ (k - 1) \<le> n" "n < b ^ k"
    by (simp_all add: k_def)
  have k: "0 < k"
    using n(1) b by (simp add: k_def floorlog_def)
  have i: "ilog b q = int k - 1"
    using True by (simp add: ilog_def k_def n_def)
  have "(of_nat (b ^ (k - 1)) :: rat) \<le> of_nat n"
    using fb(1) by (simp only: of_nat_le_iff)
  then have "(of_nat b :: rat) ^ (k - 1) \<le> of_nat n"
    by simp
  also have "\<dots> \<le> q"
    by (rule n(2))
  finally have "(of_nat b :: rat) ^ (k - 1) \<le> q" .
  moreover have "(of_nat b :: rat) powi (int k - 1) = of_nat b ^ (k - 1)"
    using k by (simp add: power_int_def nat_diff_distrib')
  ultimately have lo: "(of_nat b :: rat) powi (int k - 1) \<le> q"
    by simp
  have "n + 1 \<le> b ^ k"
    using fb(2) by simp
  then have "(of_nat (n + 1) :: rat) \<le> of_nat (b ^ k)"
    by (simp only: of_nat_le_iff)
  then have "(of_nat n :: rat) + 1 \<le> of_nat b ^ k"
    by simp
  then have hi: "q < (of_nat b :: rat) powi (int k)"
    using n(3) by simp
  from lo hi i show ?thesis by simp
next
  case False
  define r where "r = 1 / q"
  define n where "n = nat (\<lceil>r\<rceil> - 1)"
  define k where "k = floorlog b n"
  have r: "1 < r"
    using False q by (simp add: r_def)
  then have c: "2 \<le> \<lceil>r\<rceil>"
    by (simp add: le_ceiling_iff)
  have n: "0 < n" "of_nat n < r" "r \<le> of_nat n + 1"
    using c by (simp_all add: n_def) linarith+
  from floorlog_bounds [OF n(1) b] have fb: "b ^ (k - 1) \<le> n" "n < b ^ k"
    by (simp_all add: k_def)
  have k: "0 < k"
    using n(1) b by (simp add: k_def floorlog_def)
  have i: "ilog b q = - int k"
    using False by (simp add: ilog_def k_def n_def r_def)
  have bp: "0 < (of_nat b :: rat)"
    using b by simp
  have "(of_nat (b ^ (k - 1)) :: rat) \<le> of_nat n"
    using fb(1) by (simp only: of_nat_le_iff)
  then have "(of_nat b :: rat) ^ (k - 1) \<le> of_nat n"
    by simp
  from this n(2) have "(of_nat b :: rat) ^ (k - 1) < r"
    by (rule le_less_trans)
  then have "q * of_nat b ^ (k - 1) < 1"
    using q by (simp add: r_def field_simps)
  then have hi: "q < 1 / of_nat b ^ (k - 1)"
    using bp by (simp add: field_simps)
  have "n + 1 \<le> b ^ k"
    using fb(2) by simp
  then have "(of_nat (n + 1) :: rat) \<le> of_nat (b ^ k)"
    by (simp only: of_nat_le_iff)
  then have "(of_nat n :: rat) + 1 \<le> of_nat b ^ k"
    by simp
  then have "r \<le> of_nat b ^ k"
    using n(3) by simp
  then have "1 \<le> q * of_nat b ^ k"
    using q by (simp add: r_def field_simps)
  then have lo: "1 / of_nat b ^ k \<le> q"
    using bp by (simp add: field_simps)
  have e1: "(of_nat b :: rat) powi (- int k) = 1 / of_nat b ^ k"
    using k by (simp add: power_int_def inverse_eq_divide power_one_over)
  have e2: "(of_nat b :: rat) powi (- int k + 1) = 1 / of_nat b ^ (k - 1)"
  proof (cases "k = 1")
    case True
    then show ?thesis by simp
  next
    case False
    with k have "nat (int k - 1) = k - 1" "\<not> 0 \<le> - int k + 1"
      by simp_all
    then show ?thesis
      by (simp add: power_int_def inverse_eq_divide power_one_over)
  qed
  from lo hi i e1 e2 show ?thesis by simp
qed

lemma ilog_eq:
  assumes b: "1 < b" and q: "0 < q"
    and lo: "of_nat b powi e \<le> q" and hi: "q < of_nat b powi (e + 1)"
  shows "ilog b q = e"
proof -
  let ?i = "ilog b q"
  have b1: "1 < (of_nat b :: rat)"
    using b by simp
  from ilog_bounds [OF b q] have l: "of_nat b powi ?i \<le> q" and h: "q < of_nat b powi (?i + 1)"
    by simp_all
  have "?i < e + 1"
  proof (rule ccontr)
    assume "\<not> ?i < e + 1"
    then have "of_nat b powi (e + 1) \<le> (of_nat b :: rat) powi ?i"
      using b1 by (intro power_int_increasing) simp_all
    with l hi show False by simp
  qed
  moreover have "e < ?i + 1"
  proof (rule ccontr)
    assume "\<not> e < ?i + 1"
    then have "of_nat b powi (?i + 1) \<le> (of_nat b :: rat) powi e"
      using b1 by (intro power_int_increasing) simp_all
    with lo h show False by simp
  qed
  ultimately show ?thesis by simp
qed

lemma floor_rat_numeral: "\<lfloor>numeral a / numeral b :: rat\<rfloor> = numeral a div numeral b"
  using floor_divide_of_int_eq [of "numeral a" "numeral b", where ?'a = rat] by simp

lemma ceiling_rat_numeral: "\<lceil>numeral a / numeral b :: rat\<rceil> = - (- numeral a div numeral b)"
  using ceiling_divide_eq_div [of "numeral a" "numeral b", where ?'a = rat] by simp

lemma round_half_even_of_int: "round_half_even (of_int k) = k"
  by (simp add: round_half_even_def)

lemma fl_eq:
  assumes "q \<noteq> 0" and "2 powi e \<le> \<bar>q\<bar>" and "\<bar>q\<bar> < 2 powi (e + 1)" and "- 1022 \<le> e"
  shows "fl q =
     (let r = of_int (round_half_even (\<bar>q\<bar> / 2 powi (e - 52))) * 2 powi (e - 52)
      in if 2 powi 1024 \<le> r then (if 0 < q then PosInf else NegInf)
         else Fin (if 0 < q then r else - r))"
proof -
  have i: "ilog 2 \<bar>q\<bar> = e"
    using assms by (intro ilog_eq) simp_all
  have m: "max e (- 1022) = e"
    using assms(4) by simp
  show ?thesis
    by (simp only: fl_def Let_def i m pow2_powi assms(1) if_False)
qed

lemma fl_exact:
  assumes m: "m \<noteq> 0" "\<bar>m\<bar> < 2 ^ 53" and j: "- 1022 \<le> j"
    and r: "\<bar>of_int m * 2 powi j\<bar> < (2 powi 1024 :: rat)"
  shows "fl (of_int m * 2 powi j) = Fin (of_int m * 2 powi j)"
proof -
  let ?q = "of_int m * 2 powi j :: rat"
  let ?a = "of_int \<bar>m\<bar> :: rat"
  define i where "i = ilog 2 ?a"
  have ap: "0 < ?a" using m(1) by simp
  from ilog_bounds [of 2 ?a] ap have ib: "2 powi i \<le> ?a" "?a < 2 powi (i + 1)"
    by (simp_all add: i_def)
  have i0: "0 \<le> i"
  proof (rule ccontr)
    assume "\<not> 0 \<le> i"
    then have "(2::rat) powi (i + 1) \<le> 2 powi 0"
      by (intro power_int_increasing) simp_all
    with ib(2) have "?a < 1" by simp
    with m(1) show False by simp
  qed
  have i52: "i \<le> 52"
  proof (rule ccontr)
    assume "\<not> i \<le> 52"
    then have "(2::rat) powi 53 \<le> 2 powi i"
      by (intro power_int_increasing) simp_all
    with ib(1) have "(2::rat) ^ 53 \<le> ?a" by simp
    then have "(of_int (2 ^ 53) :: rat) \<le> of_int \<bar>m\<bar>"
      by simp
    then have "(2::int) ^ 53 \<le> \<bar>m\<bar>"
      by (simp only: of_int_le_iff)
    with m(2) show False by simp
  qed
  have aq: "\<bar>?q\<bar> = ?a * 2 powi j"
    by (simp add: abs_mult)
  have p: "(0::rat) < 2 powi j"
    by simp
  have lo: "2 powi (i + j) \<le> \<bar>?q\<bar>"
    using ib(1) p by (simp add: aq power_int_add)
  have hi: "\<bar>?q\<bar> < 2 powi (i + j + 1)"
  proof -
    have "?a * 2 powi j < 2 powi (i + 1) * 2 powi j"
      using ib(2) p by (rule mult_strict_right_mono)
    then show ?thesis
      by (simp add: aq power_int_add mult_ac)
  qed
  have q0: "?q \<noteq> 0"
    using m(1) by simp
  have e: "- 1022 \<le> i + j"
    using i0 j by simp
  have "\<bar>?q\<bar> / 2 powi (i + j - 52) = ?a * 2 powi (52 - i)"
  proof -
    have s: "(2::rat) powi j = 2 powi (52 - i) * 2 powi (i + j - 52)"
      by (simp flip: power_int_add)
    have nz: "(2::rat) powi (i + j - 52) \<noteq> 0"
      by simp
    show ?thesis
      unfolding aq s using nz by (simp add: abs_mult)
  qed
  also have "\<dots> = of_int (\<bar>m\<bar> * 2 ^ nat (52 - i))"
    using i52 by (simp add: power_int_def)
  finally have d: "\<bar>?q\<bar> / 2 powi (i + j - 52) = of_int (\<bar>m\<bar> * 2 ^ nat (52 - i))" .
  have rb: "of_int (\<bar>m\<bar> * 2 ^ nat (52 - i)) * 2 powi (i + j - 52) = \<bar>?q\<bar>"
  proof -
    have "(2::rat) powi (i + j - 52) \<noteq> 0"
      by simp
    with d show ?thesis
      by (simp add: field_simps)
  qed
  have "fl ?q =
     (let r = of_int (round_half_even (\<bar>?q\<bar> / 2 powi (i + j - 52))) * 2 powi (i + j - 52)
      in if 2 powi 1024 \<le> r then (if 0 < ?q then PosInf else NegInf)
         else Fin (if 0 < ?q then r else - r))"
    using q0 lo hi e by (rule fl_eq)
  also have "\<dots> = Fin (if 0 < ?q then \<bar>?q\<bar> else - \<bar>?q\<bar>)"
    using r unfolding d round_half_even_of_int rb Let_def by simp
  also have "\<dots> = Fin ?q"
    using q0 by (simp add: abs_if)
  finally show ?thesis .
qed

lemma fl_of_int: "\<bar>m\<bar> < 2 ^ 53 \<Longrightarrow> fl (of_int m) = Fin (of_int m)"
proof (cases "m = 0")
  case True
  then show ?thesis by (simp add: fl_def)
next
  case False
  assume a: "\<bar>m\<bar> < 2 ^ 53"
  have "(of_int \<bar>m\<bar> :: rat) < of_int (2 ^ 53)"
    using a by (simp only: of_int_less_iff)
  then have "\<bar>of_int m :: rat\<bar> < 2 ^ 53"
    by simp
  also have "\<dots> < (2 powi 1024 :: rat)"
    by simp
  finally have "\<bar>of_int m * 2 powi 0 :: rat\<bar> < 2 powi 1024"
    by simp
  from fl_exact [OF False a _ this] show ?thesis by simp
qed

lemma fl_numeral: "(numeral k :: int) < 2 ^ 53 \<Longrightarrow> fl (numeral k) = Fin (numeral k)"
  using fl_of_int [of "numeral k"] by simp

lemma fl_neg_numeral: "(numeral k :: int) < 2 ^ 53 \<Longrightarrow> fl (- numeral k) = Fin (- numeral k)"
  using fl_of_int [of "- numeral k"] by simp

lemma fl_0: "fl 0 = Fin 0" and fl_1: "fl 1 = Fin 1"
  using fl_of_int [of 0] fl_of_int [of 1] by simp_all

declare floor_rat_numeral [simp] ceiling_rat_numeral [simp]

lemma fl_5: "fl 5 = Fin 5"
  by (simp add: fl_numeral)

text \<open>Rules that let the simplifier run the conversions between numbers and strings.\<close>

lemma shortest_from_numeral:
  "shortest_from (numeral n) k v =
     (case candidate v k of Some r \<Rightarrow> r | None \<Rightarrow> shortest_from (pred_numeral n) (Suc k) v)"
  by (simp add: numeral_eq_Suc)

lemma replicate_numeral_eval: "replicate (numeral k) x = x # replicate (pred_numeral k) x"
  by (simp add: numeral_eq_Suc)

lemmas shortest_eval =
  shortest_def shortest_from_numeral candidate_def nearest_def Let_def pow10_def fl_numeral

lemmas digits_eval = digits.simps digit_char_def replicate_numeral_eval

lemmas parseFloat_eval =
  parseFloat_def split_sign_def is_space_def is_digit_def digits_val_def digit_val_def
  parse_exponent_def pow10_def Let_def fl_numeral fl_neg_numeral fl_0

lemma operations_basic_divide:
  "operations H basic ''/'' = Some (\<lambda>a b. map_sum id Number (basic_divide a b))"
  by (simp add: operations_def basic_operations_def get_property_def invoke_def)

lemma operations_basic_plus: "operations H basic ''+'' = Some (\<lambda>a b. Inr (Number (js_add a b)))"
  by (simp add: operations_def basic_operations_def get_property_def invoke_def)

section \<open>The basic strategy\<close>

lemma calculate_divide:
  "currentStrategy m = basic \<Longrightarrow>
   fst (calculate H ''/'' a b m) = (if b = Fin 0 then Inl DivisionByZero else Inr (Number (js_div a b)))"
  by (simp add: calculate_def operations_basic_divide basic_divide_def js_eq_def Let_def)

lemma calculate_plus:
  "currentStrategy m = basic \<Longrightarrow> fst (calculate H ''+'' a b m) = Inr (Number (js_add a b))"
  by (simp add: calculate_def operations_basic_plus Let_def)

text \<open>
  C6. In the basic strategy \<open>calculate('/', a, b)\<close> throws exactly when \<open>b\<close> is zero, and
  the exception is the division-by-zero error; otherwise it returns the quotient
  \<open>a / b\<close>, for finite operands the exact quotient rounded to a double. In particular
  \<open>calculate('/', 5, 0)\<close> throws the division-by-zero error and \<open>calculate('+', 2, 3)\<close>
  returns 5.
\<close>

theorem basic_division_by_zero:
  assumes "currentStrategy m = basic"
  shows "((\<exists>e. fst (calculate H ''/'' a b m) = Inl e) \<longleftrightarrow> b = Fin 0)
       \<and> (fst (calculate H ''/'' a b m) = Inl DivisionByZero \<longleftrightarrow> b = Fin 0)
       \<and> (b \<noteq> Fin 0 \<longrightarrow> fst (calculate H ''/'' a b m) = Inr (Number (js_div a b)))
       \<and> (\<forall>x y. y \<noteq> 0 \<longrightarrow> fst (calculate H ''/'' (Fin x) (Fin y) m) = Inr (Number (fl (x / y))))
       \<and> fst (calculate H ''/'' (Fin 5) (Fin 0) m) = Inl DivisionByZero
       \<and> fst (calculate H ''+'' (Fin 2) (Fin 3) m) = Inr (Number (Fin 5))"
proof -
  have sum: "fst (calculate H ''+'' (Fin 2) (Fin 3) m) = Inr (Number (Fin 5))"
    using assms fl_5 by (simp add: calculate_plus)
  show ?thesis
    using assms sum by (simp add: calculate_divide)
qed

theorem basic_division_by_zero_witness:
  "\<forall>H. currentStrategy initial = basic
     \<and> fst (calculate H ''/'' (Fin 5) (Fin 0) initial) = Inl DivisionByZero
     \<and> fst (calculate H ''/'' (Fin 6) (Fin 3) initial) = Inr (Number (js_div (Fin 6) (Fin 3)))
     \<and> fst (calculate H ''+'' (Fin 2) (Fin 3) initial) = Inr (Number (Fin 5))"
proof
  fix H
  have b: "currentStrategy initial = basic"
    by (simp add: initial_def)
  show "currentStrategy initial = basic
     \<and> fst (calculate H ''/'' (Fin 5) (Fin 0) initial) = Inl DivisionByZero
     \<and> fst (calculate H ''/'' (Fin 6) (Fin 3) initial) = Inr (Number (js_div (Fin 6) (Fin 3)))
     \<and> fst (calculate H ''+'' (Fin 2) (Fin 3) initial) = Inr (Number (Fin 5))"
    using b basic_division_by_zero [OF b, of H "Fin 6" "Fin 3"] by simp
qed

section \<open>Command history\<close>

lemma slice0_take: "0 \<le> e \<Longrightarrow> slice0 xs e = take (nat e) xs"
  by (simp add: slice0_def)

lemma command_execute_objects:
  assumes "command_execute perf c h = (Inr res, h')"
  shows "executed h' c \<and> (\<forall>r. executed h r \<longrightarrow> executed h' r)"
  using assms
  by (auto simp: command_execute_def executed_def Let_def split: command.splits prod.splits)

lemma command_undo_objects: "objects (snd (command_undo r h)) = objects h"
  by (simp add: command_undo_def split: command.splits option.splits)

lemma execute_success:
  assumes "execute perf c (ch, h) = (Inr res, ch', h')" and "history_invariant ch"
  shows "commands ch' =
           (let cs = take (nat (currentIndex ch + 1)) (commands ch) @ [c]
            in if 50 < length cs then tl cs else cs)"
    and "currentIndex ch' = int (length (commands ch')) - 1"
    and "maxHistory ch' = 50"
    and "command_execute perf c h = (Inr res, h')"
  using assms
  by (auto simp: execute_def history_invariant_def slice0_take Let_def min_def
           split: prod.splits sum.splits if_splits)

lemma execute_failure:
  assumes "execute perf c (ch, h) = (Inl e, ch', h')" and "history_invariant ch"
  shows "commands ch' = take (nat (currentIndex ch + 1)) (commands ch)"
    and "currentIndex ch' = currentIndex ch"
    and "maxHistory ch' = 50"
  using assms
  by (auto simp: execute_def history_invariant_def slice0_take Let_def
           split: prod.splits sum.splits if_splits)

lemma execute_invariant:
  assumes "history_invariant ch"
  shows "history_invariant (fst (snd (execute perf c (ch, h))))"
proof (cases "execute perf c (ch, h)")
  case (fields r ch' h')
  show ?thesis
  proof (cases r)
    case (Inl e)
    with fields assms execute_failure [of perf c ch h e ch' h'] show ?thesis
      by (auto simp: history_invariant_def)
  next
    case (Inr res)
    with fields assms execute_success [of perf c ch h res ch' h'] show ?thesis
      by (auto simp: history_invariant_def Let_def split: if_splits)
  qed
qed

lemma undo_invariant:
  assumes "history_invariant ch"
  shows "history_invariant (fst (snd (undo (ch, h))))"
  using assms
  by (auto simp: undo_def history_invariant_def split: prod.splits sum.splits)


lemma execute_well_formed:
  assumes "execute perf c (ch, h) = (Inr res, ch', h')" and "well_formed (ch, h)"
  shows "well_formed (ch', h')"
proof -
  have inv: "history_invariant ch" and ex: "\<forall>r \<in> set (commands ch). executed h r"
    using assms(2) by (simp_all add: well_formed_def)
  note s = execute_success [OF assms(1) inv]
  have obj: "executed h' c" "\<And>r. executed h r \<Longrightarrow> executed h' r"
    using command_execute_objects [OF s(4)] by auto
  have "set (commands ch') \<subseteq> insert c (set (commands ch))"
  proof
    fix r assume "r \<in> set (commands ch')"
    then have "r \<in> set (take (nat (currentIndex ch + 1)) (commands ch) @ [c])"
      using s(1) by (auto simp: Let_def split: if_splits dest: list.set_sel(2) [rotated])
    then show "r \<in> insert c (set (commands ch))"
      by (auto dest: in_set_takeD)
  qed
  then have "\<forall>r \<in> set (commands ch'). executed h' r"
    using obj ex by auto
  moreover have "history_invariant ch'"
    using execute_invariant [OF inv, of perf c h] assms(1) by simp
  ultimately show ?thesis
    by (simp add: well_formed_def)
qed

lemma execute_length:
  assumes "execute perf c (ch, h) = (Inr res, ch', h')" and "history_invariant ch"
  shows "length (commands ch') = min 50 (nat (currentIndex ch + 2))"
  using execute_success(1) [OF assms] assms(2)
  by (auto simp: Let_def history_invariant_def min_def split: if_splits)

lemma execute_all_well_formed:
  assumes "execute_all perf cs st = (Inr u, st')" and "well_formed st"
  shows "well_formed st'
       \<and> length (commands (fst st')) = min 50 (nat (currentIndex (fst st) + 1) + length cs)
       \<and> currentIndex (fst st') = int (length (commands (fst st'))) - 1
       \<or> cs = [] \<and> st' = st"
  using assms
proof (induction cs arbitrary: st)
  case Nil
  then show ?case by simp
next
  case (Cons c cs)
  obtain ch h where st: "st = (ch, h)" by (cases st)
  obtain r ch1 h1 where e: "execute perf c (ch, h) = (r, ch1, h1)"
    by (cases "execute perf c (ch, h)") auto
  from Cons.prems(1) st e obtain res where r: "r = Inr res"
    by (cases r) auto
  have rest: "execute_all perf cs (ch1, h1) = (Inr u, st')"
    using Cons.prems(1) st e r by simp
  have inv: "history_invariant ch"
    using Cons.prems(2) st by (simp add: well_formed_def)
  have wf1: "well_formed (ch1, h1)"
    using execute_well_formed [of perf c ch h res ch1 h1] e r Cons.prems(2) st by simp
  have len1: "length (commands ch1) = min 50 (nat (currentIndex ch + 2))"
    using execute_length [of perf c ch h res ch1 h1] e r inv by simp
  have idx1: "currentIndex ch1 = int (length (commands ch1)) - 1"
    using execute_success(2) [of perf c ch h res ch1 h1] e r inv by simp
  have lo: "- 1 \<le> currentIndex ch"
    using inv by (simp add: history_invariant_def)
  from Cons.IH [OF rest wf1] show ?case
  proof
    assume a: "well_formed st'
       \<and> length (commands (fst st')) = min 50 (nat (currentIndex (fst (ch1, h1)) + 1) + length cs)
       \<and> currentIndex (fst st') = int (length (commands (fst st'))) - 1"
    then show ?thesis
      using st len1 idx1 lo by (auto simp: min_def)
  next
    assume "cs = [] \<and> st' = (ch1, h1)"
    then show ?thesis
      using st wf1 len1 idx1 lo by (auto simp: min_def)
  qed
qed

lemma undo_well_formed:
  assumes "well_formed (ch, h)" and "0 \<le> currentIndex ch"
  shows "\<exists>h'. undo (ch, h) = (Inr True, ch\<lparr>currentIndex := currentIndex ch - 1\<rparr>, h')
            \<and> well_formed (ch\<lparr>currentIndex := currentIndex ch - 1\<rparr>, h')"
proof -
  have inv: "history_invariant ch" and ex: "\<forall>r \<in> set (commands ch). executed h r"
    using assms(1) by (simp_all add: well_formed_def)
  let ?r = "commands ch ! nat (currentIndex ch)"
  have range: "nat (currentIndex ch) < length (commands ch)"
    using inv assms(2) by (auto simp: history_invariant_def)
  then have "executed h ?r"
    using ex by simp
  then obtain operation operand s where o: "objects h ?r = CalculationCommand operation operand (Some s)"
    by (auto simp: executed_def)
  have u: "undo (ch, h) = (Inr True, ch\<lparr>currentIndex := currentIndex ch - 1\<rparr>, h\<lparr>calculator := setState s (calculator h)\<rparr>)"
    using assms(2) range o by (simp add: undo_def command_undo_def)
  have "well_formed (ch\<lparr>currentIndex := currentIndex ch - 1\<rparr>, h\<lparr>calculator := setState s (calculator h)\<rparr>)"
    using inv ex assms(2) by (auto simp: well_formed_def history_invariant_def executed_def)
  with u show ?thesis by blast
qed

lemma undo_times_well_formed:
  assumes "well_formed (ch, h)"
  shows "\<exists>st'. undo_times n (ch, h) =
           (Inr (replicate (min n (nat (currentIndex ch + 1))) True
                 @ replicate (n - nat (currentIndex ch + 1)) False), st')"
  using assms
proof (induction n arbitrary: ch h)
  case 0
  then show ?case by simp
next
  case (Suc n)
  show ?case
  proof (cases "0 \<le> currentIndex ch")
    case True
    from undo_well_formed [OF Suc.prems True] obtain h' where
      u: "undo (ch, h) = (Inr True, ch\<lparr>currentIndex := currentIndex ch - 1\<rparr>, h')"
      and wf: "well_formed (ch\<lparr>currentIndex := currentIndex ch - 1\<rparr>, h')"
      by blast
    from Suc.IH [OF wf] obtain st' where
      r: "undo_times n (ch\<lparr>currentIndex := currentIndex ch - 1\<rparr>, h') =
            (Inr (replicate (min n (nat (currentIndex ch))) True
                  @ replicate (n - nat (currentIndex ch)) False), st')"
      by auto
    have "nat (currentIndex ch + 1) = Suc (nat (currentIndex ch))"
      using True by simp
    then show ?thesis
      using u r by simp
  next
    case False
    then have u: "undo (ch, h) = (Inr False, ch, h)"
      by (simp add: undo_def)
    from Suc.IH [OF Suc.prems] obtain st' where
      r: "undo_times n (ch, h) =
            (Inr (replicate (min n (nat (currentIndex ch + 1))) True
                  @ replicate (n - nat (currentIndex ch + 1)) False), st')"
      by auto
    have z: "nat (currentIndex ch + 1) = 0"
      using False Suc.prems by (simp add: well_formed_def history_invariant_def)
    show ?thesis
      using u r z by (simp add: replicate_append_same)
  qed
qed


lemma command_execute_returns:
  assumes "returns perf" and "objects h c \<noteq> Command"
  shows "\<exists>res h'. command_execute perf c h = (Inr res, h')
            \<and> (\<forall>r. objects h r \<noteq> Command \<longrightarrow> objects h' r \<noteq> Command)"
proof -
  obtain operation operand p where o: "objects h c = CalculationCommand operation operand p"
    using assms(2) by (cases "objects h c") auto
  let ?h1 = "h\<lparr>objects := (objects h)(c := CalculationCommand operation operand (Some (getState (calculator h))))\<rparr>"
  obtain res m' where p: "perf operation operand (calculator ?h1) = (Inr res, m')"
    using assms(1) unfolding returns_def by blast
  have "command_execute perf c h = (Inr res, ?h1\<lparr>calculator := m'\<rparr>)"
    using o p by (simp add: command_execute_def Let_def)
  then show ?thesis by auto
qed

lemma execute_returns:
  assumes "returns perf" and "objects h c \<noteq> Command"
  shows "\<exists>res ch' h'. execute perf c (ch, h) = (Inr res, ch', h')
            \<and> (\<forall>r. objects h r \<noteq> Command \<longrightarrow> objects h' r \<noteq> Command)"
proof -
  from command_execute_returns [OF assms] obtain res h' where
    c: "command_execute perf c h = (Inr res, h')"
    and o: "\<forall>r. objects h r \<noteq> Command \<longrightarrow> objects h' r \<noteq> Command"
    by blast
  then show ?thesis
    by (simp add: execute_def Let_def)
qed

lemma execute_all_returns:
  assumes "returns perf" and "\<forall>c \<in> set cs. objects (snd st) c \<noteq> Command"
  shows "\<exists>st'. execute_all perf cs st = (Inr (), st')"
  using assms(2)
proof (induction cs arbitrary: st)
  case Nil
  then show ?case by simp
next
  case (Cons c cs)
  obtain ch h where st: "st = (ch, h)" by (cases st)
  have "objects h c \<noteq> Command"
    using Cons.prems st by simp
  from execute_returns [OF assms(1) this, of ch] obtain res ch' h' where
    e: "execute perf c (ch, h) = (Inr res, ch', h')"
    and o: "\<forall>r. objects h r \<noteq> Command \<longrightarrow> objects h' r \<noteq> Command"
    by blast
  have "\<forall>c \<in> set cs. objects (snd (ch', h')) c \<noteq> Command"
    using Cons.prems st o by simp
  from Cons.IH [OF this] show ?case
    using st e by simp
qed

lemma getState_setState: "getState (setState s m) = s"
  by (simp add: getState_def setState_def)

text \<open>
  C2. The history keeps \<open>-1 \<le> currentIndex < commands.length \<le> 50\<close>: the constructor
  establishes it, and \<open>execute\<close> (whether the command returns or throws) and \<open>undo\<close>
  preserve it. When the command returns, \<open>execute\<close> has dropped the commands after the
  cursor, pushed the new command, evicted the oldest command if there were more than
  50, and left the cursor on the new command.
\<close>

theorem command_history_invariant:
  assumes "history_invariant ch"
  shows "history_invariant new_CommandHistory
       \<and> history_invariant (fst (snd (execute perf c (ch, h))))
       \<and> history_invariant (fst (snd (undo (ch, h))))
       \<and> (\<forall>res ch' h'. execute perf c (ch, h) = (Inr res, ch', h') \<longrightarrow>
             commands ch' =
               (let cs = take (nat (currentIndex ch + 1)) (commands ch) @ [c]
                in if 50 < length cs then tl cs else cs)
           \<and> currentIndex ch' = int (length (commands ch')) - 1)"
proof (intro conjI allI impI)
  show "history_invariant new_CommandHistory"
    by (simp add: history_invariant_def new_CommandHistory_def)
  show "history_invariant (fst (snd (execute perf c (ch, h))))"
    by (rule execute_invariant [OF assms])
  show "history_invariant (fst (snd (undo (ch, h))))"
    by (rule undo_invariant [OF assms])
next
  fix res ch' h'
  assume e: "execute perf c (ch, h) = (Inr res, ch', h')"
  show "commands ch' =
               (let cs = take (nat (currentIndex ch + 1)) (commands ch) @ [c]
                in if 50 < length cs then tl cs else cs)"
    by (rule execute_success(1) [OF e assms])
  show "currentIndex ch' = int (length (commands ch')) - 1"
    by (rule execute_success(2) [OF e assms])
qed

lemma returns_show_operand: "returns show_operand"
  by (simp add: returns_def show_operand_def)

theorem command_history_invariant_witness:
  "history_invariant new_CommandHistory
   \<and> history_invariant (fst (snd (execute show_operand 7 (new_CommandHistory, fresh_commands))))
   \<and> history_invariant (fst (snd (undo (new_CommandHistory, fresh_commands))))
   \<and> commands (fst (snd (execute show_operand 7 (new_CommandHistory, fresh_commands)))) = [7]
   \<and> currentIndex (fst (snd (execute show_operand 7 (new_CommandHistory, fresh_commands)))) = 0"
proof -
  have i: "history_invariant new_CommandHistory"
    by (simp add: history_invariant_def new_CommandHistory_def)
  obtain res ch' h' where e: "execute show_operand 7 (new_CommandHistory, fresh_commands) = (Inr res, ch', h')"
    using execute_returns [OF returns_show_operand, of fresh_commands 7 new_CommandHistory]
    by (auto simp: fresh_commands_def)
  show ?thesis
    using i e command_history_invariant [OF i, of show_operand 7 fresh_commands]
    by (simp add: new_CommandHistory_def)
qed

text \<open>
  C3. With the cursor on a command that holds a snapshot, \<open>undo\<close> sets the calculator to
  that snapshot (reading the state back gives the snapshot), moves the cursor down and
  returns true; with the cursor below zero it returns false and changes nothing. After
  60 commands are executed (which succeeds when \<open>performOperation\<close> returns), of any
  number of \<open>undo\<close> calls the first 50 return true and all later ones false.
\<close>

theorem undo_restores_snapshot:
  "(0 \<le> currentIndex ch \<and> nat (currentIndex ch) < length (commands ch)
      \<and> objects h (commands ch ! nat (currentIndex ch)) = CalculationCommand operation operand (Some s)
     \<longrightarrow> undo (ch, h) =
           (Inr True, ch\<lparr>currentIndex := currentIndex ch - 1\<rparr>,
            h\<lparr>calculator := setState s (calculator h)\<rparr>)
         \<and> getState (setState s (calculator h)) = s)
   \<and> (currentIndex ch < 0 \<longrightarrow> undo (ch, h) = (Inr False, ch, h))
   \<and> (length cs = 60 \<and> well_formed (ch, h) \<and> returns perf \<and> (\<forall>c \<in> set cs. objects h c \<noteq> Command)
     \<longrightarrow> (\<exists>st. execute_all perf cs (ch, h) = (Inr (), st)
           \<and> (\<forall>n. \<exists>st'. undo_times n st =
                 (Inr (replicate (min n 50) True @ replicate (n - 50) False), st'))))"
proof (intro conjI impI)
  assume a: "0 \<le> currentIndex ch \<and> nat (currentIndex ch) < length (commands ch)
      \<and> objects h (commands ch ! nat (currentIndex ch)) = CalculationCommand operation operand (Some s)"
  then show "undo (ch, h) =
           (Inr True, ch\<lparr>currentIndex := currentIndex ch - 1\<rparr>,
            h\<lparr>calculator := setState s (calculator h)\<rparr>)"
    by (simp add: undo_def command_undo_def)
  show "getState (setState s (calculator h)) = s"
    by (rule getState_setState)
next
  assume "currentIndex ch < 0"
  then show "undo (ch, h) = (Inr False, ch, h)"
    by (simp add: undo_def)
next
  assume a: "length cs = 60 \<and> well_formed (ch, h) \<and> returns perf \<and> (\<forall>c \<in> set cs. objects h c \<noteq> Command)"
  then obtain st where e: "execute_all perf cs (ch, h) = (Inr (), st)"
    using execute_all_returns [of perf cs "(ch, h)"] by auto
  have lo: "- 1 \<le> currentIndex ch"
    using a by (simp add: well_formed_def history_invariant_def)
  from execute_all_well_formed [OF e] a
  have wf: "well_formed st" and len: "length (commands (fst st)) = 50"
    and idx: "currentIndex (fst st) = int (length (commands (fst st))) - 1"
    using lo by (auto simp: min_def)
  have "\<exists>st'. undo_times n st =
          (Inr (replicate (min n 50) True @ replicate (n - 50) False), st')" for n
    using undo_times_well_formed [of "fst st" "snd st" n] wf len idx by simp
  with e show "\<exists>st. execute_all perf cs (ch, h) = (Inr (), st)
           \<and> (\<forall>n. \<exists>st'. undo_times n st =
                 (Inr (replicate (min n 50) True @ replicate (n - 50) False), st'))"
    by blast
qed

lemma well_formed_new: "well_formed (new_CommandHistory, h)"
  by (simp add: well_formed_def history_invariant_def new_CommandHistory_def)

theorem undo_restores_snapshot_witness:
  "(\<exists>st. execute_all show_operand [0..<60] (new_CommandHistory, fresh_commands) = (Inr (), st)
      \<and> (\<exists>st'. undo_times 60 st = (Inr (replicate 50 True @ replicate 10 False), st')))
   \<and> undo (new_CommandHistory, fresh_commands) = (Inr False, new_CommandHistory, fresh_commands)
   \<and> undo (\<lparr>commands = [3], currentIndex = 0, maxHistory = 50\<rparr>,
            fresh_commands\<lparr>objects := (objects fresh_commands)(3 := CalculationCommand () ''3'' (Some (getState initial)))\<rparr>)
       = (Inr True, \<lparr>commands = [3], currentIndex = - 1, maxHistory = 50\<rparr>,
            fresh_commands\<lparr>objects := (objects fresh_commands)(3 := CalculationCommand () ''3'' (Some (getState initial))),
                            calculator := setState (getState initial) initial\<rparr>)"
proof -
  let ?ch = "\<lparr>commands = [3], currentIndex = 0, maxHistory = 50\<rparr>"
  let ?h = "fresh_commands\<lparr>objects := (objects fresh_commands)(3 := CalculationCommand () ''3'' (Some (getState initial)))\<rparr>"
  note sixty = undo_restores_snapshot
    [of new_CommandHistory fresh_commands "()" "''3''" "getState initial" "[0..<60]" show_operand,
     THEN conjunct2, THEN conjunct2, rule_format]
  note empty = undo_restores_snapshot
    [of new_CommandHistory fresh_commands "()" "''3''" "getState initial" "[]" show_operand,
     THEN conjunct2, THEN conjunct1, rule_format]
  note one = undo_restores_snapshot
    [of ?ch ?h "()" "''3''" "getState initial" "[]" show_operand, THEN conjunct1, rule_format]
  have c: "\<forall>c \<in> set [0..<60]. objects fresh_commands c \<noteq> Command"
    by (simp add: fresh_commands_def)
  have "length [0..<60] = 60 \<and> well_formed (new_CommandHistory, fresh_commands)
          \<and> returns show_operand \<and> (\<forall>c \<in> set [0..<60]. objects fresh_commands c \<noteq> Command)"
    using c well_formed_new returns_show_operand by simp
  from sixty [OF this] obtain st where
    e: "execute_all show_operand [0..<60] (new_CommandHistory, fresh_commands) = (Inr (), st)"
    and u: "\<forall>n. \<exists>st'. undo_times n st =
              (Inr (replicate (min n 50) True @ replicate (n - 50) False), st')"
    by blast
  from u [rule_format, of 60] obtain st' where
    "undo_times 60 st = (Inr (replicate 50 True @ replicate 10 False), st')"
    by auto
  with e have 1: "\<exists>st. execute_all show_operand [0..<60] (new_CommandHistory, fresh_commands) = (Inr (), st)
      \<and> (\<exists>st'. undo_times 60 st = (Inr (replicate 50 True @ replicate 10 False), st'))"
    by blast
  have "currentIndex new_CommandHistory < 0"
    by (simp add: new_CommandHistory_def)
  from empty [OF this] have 2: "undo (new_CommandHistory, fresh_commands) = (Inr False, new_CommandHistory, fresh_commands)" .
  have "0 \<le> currentIndex ?ch \<and> nat (currentIndex ?ch) < length (commands ?ch)
      \<and> objects ?h (commands ?ch ! nat (currentIndex ?ch)) = CalculationCommand () ''3'' (Some (getState initial))"
    by simp
  from one [OF this] have 3: "undo (?ch, ?h) = (Inr True, ?ch\<lparr>currentIndex := currentIndex ?ch - 1\<rparr>,
            ?h\<lparr>calculator := setState (getState initial) (calculator ?h)\<rparr>)"
    by simp
  have 4: "calculator ?h = initial"
    by (simp add: fresh_commands_def)
  have 5: "undo (?ch, ?h) = (Inr True, \<lparr>commands = [3], currentIndex = - 1, maxHistory = 50\<rparr>,
            fresh_commands\<lparr>objects := (objects fresh_commands)(3 := CalculationCommand () ''3'' (Some (getState initial))),
                            calculator := setState (getState initial) initial\<rparr>)"
    using 3 4 by simp
  from 1 2 5 show ?thesis
    by (intro conjI)
qed

section \<open>Change bus\<close>







section \<open>The calculation log\<close>

lemma addToHistory_log:
  "calculationHistory (addToHistory clk e r m) =
     take 100 (\<lparr>item_id = fst clk, expression = e, result = r, timestamp = snd clk\<rparr> # calculationHistory m)"
  by (simp add: addToHistory_def Let_def saveState_def emit_historyUpdated_def call_def)

lemma addCalculationToHistory_log:
  "calculationHistory (addCalculationToHistory x m) = take 100 (log_entry x # calculationHistory m)"
  by (simp add: addCalculationToHistory_def addToHistory_log log_entry_def)

lemma insert_all_log:
  "calculationHistory (insert_all xs m) =
     (if xs = [] then calculationHistory m else take 100 (rev (map log_entry xs) @ calculationHistory m))"
  unfolding insert_all_def
proof (induction xs arbitrary: m)
  case Nil
  then show ?case by simp
next
  case (Cons x xs)
  show ?case
  proof (cases "xs = []")
    case True
    then show ?thesis by (simp add: addCalculationToHistory_log)
  next
    case False
    have "take 100 (rev (map log_entry xs) @ take 100 (log_entry x # calculationHistory m))
        = take 100 (rev (map log_entry xs) @ log_entry x # calculationHistory m)"
      by (simp add: take_Cons' min_def)
    then show ?thesis
      using False Cons.IH [of "addCalculationToHistory x m"]
      by (simp add: addCalculationToHistory_log)
  qed
qed


text \<open>
  C8. The calculation log is newest first and capped at 100 entries: \<open>addToHistory\<close>
  prepends the new entry and keeps the first 100. After inserting 150 entries the log
  holds exactly 100, the last 100 inserted, newest first.
\<close>

theorem calculation_log_cap:
  "calculationHistory (addToHistory clk e r m) =
     take 100 (\<lparr>item_id = fst clk, expression = e, result = r, timestamp = snd clk\<rparr> # calculationHistory m)
   \<and> length (calculationHistory (addToHistory clk e r m)) \<le> 100
   \<and> (xs \<noteq> [] \<longrightarrow>
        calculationHistory (insert_all xs m) = take 100 (rev (map log_entry xs) @ calculationHistory m))
   \<and> (length xs = 150 \<longrightarrow>
        length (calculationHistory (insert_all xs m)) = 100
        \<and> calculationHistory (insert_all xs m) = rev (map log_entry (drop 50 xs)))"
proof (intro conjI impI)
  show "calculationHistory (addToHistory clk e r m) =
     take 100 (\<lparr>item_id = fst clk, expression = e, result = r, timestamp = snd clk\<rparr> # calculationHistory m)"
    by (rule addToHistory_log)
  show "length (calculationHistory (addToHistory clk e r m)) \<le> 100"
    by (simp add: addToHistory_log)
  show "xs \<noteq> [] \<Longrightarrow>
        calculationHistory (insert_all xs m) = take 100 (rev (map log_entry xs) @ calculationHistory m)"
    by (simp add: insert_all_log)
next
  assume l: "length xs = 150"
  then have ne: "xs \<noteq> []" by auto
  have "take 100 (rev (map log_entry xs) @ calculationHistory m) = take 100 (rev (map log_entry xs))"
    using l by simp
  also have "\<dots> = rev (drop 50 (map log_entry xs))"
    using l by (simp add: take_rev)
  finally have eq: "calculationHistory (insert_all xs m) = rev (map log_entry (drop 50 xs))"
    using ne by (simp add: insert_all_log drop_map)
  then show "calculationHistory (insert_all xs m) = rev (map log_entry (drop 50 xs))" .
  show "length (calculationHistory (insert_all xs m)) = 100"
    using eq l by simp
qed

lemma digits_149: "digits 149 = ''149''" and digits_150: "digits 150 = ''150''"
  by (simp_all add: digits_eval)

theorem calculation_log_cap_witness:
  "length sample_entries = 150
   \<and> length (calculationHistory (insert_all sample_entries initial)) = 100
   \<and> calculationHistory (insert_all sample_entries initial) = rev (map log_entry (drop 50 sample_entries))
   \<and> hd (calculationHistory (insert_all sample_entries initial))
       = \<lparr>item_id = 149, expression = ''149 + 1'', result = ''150'', timestamp = ''t''\<rparr>"
proof -
  have l: "length sample_entries = 150"
    by (simp add: sample_entries_def)
  note t = calculation_log_cap [of _ _ _ initial sample_entries, THEN conjunct2, THEN conjunct2,
      THEN conjunct2, rule_format, OF l]
  have "drop 50 sample_entries = map (\<lambda>i. ((i, ''t''), digits i @ '' + 1'', digits (i + 1))) [50..<150]"
    by (simp add: sample_entries_def drop_map)
  then have "last (drop 50 sample_entries) = ((149, ''t''), digits 149 @ '' + 1'', digits 150)"
    by (simp add: last_map)
  then have "hd (rev (map log_entry (drop 50 sample_entries)))
       = \<lparr>item_id = 149, expression = ''149 + 1'', result = ''150'', timestamp = ''t''\<rparr>"
    using l by (simp add: hd_rev last_map log_entry_def digits_149 digits_150)
  with l t show ?thesis by simp
qed

section \<open>Digit input\<close>

lemma inputNumber_waiting:
  "isWaitingForOperand m \<Longrightarrow>
   inputNumber d m =
     m\<lparr>currentValue := d, isWaitingForOperand := False,
       effects := effects m @ [ClearError, UpdateDisplay d (history m), UpdateDisplay d (history m),
                              UpdateMemoryIndicator (memoryValue m \<noteq> Fin 0)]\<rparr>"
  by (simp add: inputNumber_def Let_def call_def setCurrentValue_def emit_valueChanged_def
      setWaitingForOperand_def updateView_def)

lemma inputNumber_accept:
  "\<not> isWaitingForOperand m \<Longrightarrow>
   v = (if currentValue m = ''0'' then d else currentValue m @ d) \<Longrightarrow> length v \<le> 15 \<Longrightarrow>
   inputNumber d m =
     m\<lparr>currentValue := v,
       effects := effects m @ [ClearError, UpdateDisplay v (history m), UpdateDisplay v (history m),
                              UpdateMemoryIndicator (memoryValue m \<noteq> Fin 0)]\<rparr>"
  by (simp add: inputNumber_def Let_def call_def setCurrentValue_def emit_valueChanged_def
      updateView_def)

lemma inputNumber_reject:
  "\<not> isWaitingForOperand m \<Longrightarrow>
   15 < length (if currentValue m = ''0'' then d else currentValue m @ d) \<Longrightarrow>
   inputNumber d m =
     m\<lparr>effects := effects m @ [ClearError, ShowToast ''Maximum digits reached'' ''error'']\<rparr>"
  by (simp add: inputNumber_def Let_def call_def)

lemma wlz_snoc:
  "s \<noteq> [] \<Longrightarrow>
   without_leading_zeros (s @ [c]) =
     (if without_leading_zeros s = ''0'' then [c] else without_leading_zeros s @ [c])"
  by (auto simp: without_leading_zeros_def Let_def dropWhile_append dropWhile_eq_Nil_conv
           split: if_splits)
     (metis (mono_tags, lifting) dropWhile_eq_Nil_conv hd_dropWhile list.sel(1))+


lemma inputNumbers_snoc: "inputNumbers (xs @ [x]) m = inputNumber x (inputNumbers xs m)"
  by (simp add: inputNumbers_def)

lemma concat_keys_nonempty: "keys ds \<Longrightarrow> ds \<noteq> [] \<Longrightarrow> concat ds \<noteq> []"
  by (cases ds) (auto simp: keys_def)

lemma wlz_nonempty: "s \<noteq> [] \<Longrightarrow> without_leading_zeros s \<noteq> []"
  by (simp add: without_leading_zeros_def Let_def)

lemma inputNumbers_display:
  assumes "isWaitingForOperand m \<or> currentValue m = ''0''"
  shows "keys ds \<Longrightarrow> ds \<noteq> [] \<Longrightarrow> length (without_leading_zeros (concat ds)) \<le> 15 \<Longrightarrow>
         currentValue (inputNumbers ds m) = without_leading_zeros (concat ds)
         \<and> \<not> isWaitingForOperand (inputNumbers ds m)"
proof (induction ds rule: rev_induct)
  case Nil
  then show ?case by simp
next
  case (snoc x xs)
  from snoc.prems(1) obtain c where x: "x = [c]"
    by (cases x) (auto simp: keys_def)
  have kx: "keys xs"
    using snoc.prems(1) by (simp add: keys_def)
  show ?case
  proof (cases "xs = []")
    case True
    have w: "without_leading_zeros [c] = [c]"
      by (simp add: without_leading_zeros_def)
    show ?thesis
    proof (cases "isWaitingForOperand m")
      case True
      with \<open>xs = []\<close> x w show ?thesis
        by (simp add: inputNumbers_def inputNumber_waiting)
    next
      case False
      with assms have "currentValue m = ''0''" by simp
      with False \<open>xs = []\<close> x w show ?thesis
        by (simp add: inputNumbers_def inputNumber_accept [where v = "[c]"])
    qed
  next
    case False
    let ?s = "concat xs"
    have ne: "?s \<noteq> []"
      using kx False by (rule concat_keys_nonempty)
    have step: "without_leading_zeros (?s @ [c]) =
        (if without_leading_zeros ?s = ''0'' then [c] else without_leading_zeros ?s @ [c])"
      using ne by (rule wlz_snoc)
    have len: "length (without_leading_zeros ?s) \<le> 15"
      using snoc.prems(3) x step by (auto split: if_splits)
    from snoc.IH [OF kx False len]
    have cur: "currentValue (inputNumbers xs m) = without_leading_zeros ?s"
      and nw: "\<not> isWaitingForOperand (inputNumbers xs m)"
      by simp_all
    let ?v = "without_leading_zeros (?s @ [c])"
    have v: "?v = (if currentValue (inputNumbers xs m) = ''0'' then x
                   else currentValue (inputNumbers xs m) @ x)"
      using step cur x by simp
    have l: "length ?v \<le> 15"
      using snoc.prems(3) x by simp
    show ?thesis
      using inputNumber_accept [OF nw v l] x nw
      by (simp add: inputNumbers_snoc)
  qed
qed

lemma wlz_no_leading_zero: "s \<noteq> [] \<Longrightarrow> hd s \<noteq> CHR ''0'' \<Longrightarrow> without_leading_zeros s = s"
  by (cases s) (simp_all add: without_leading_zeros_def)

lemma concat_keys: "keys ds \<Longrightarrow> ds \<noteq> [] \<Longrightarrow> hd ds \<noteq> ''0'' \<Longrightarrow>
  hd (concat ds) \<noteq> CHR ''0'' \<and> length (concat ds) = length ds"
proof -
  assume k: "keys ds" and ne: "ds \<noteq> []" and h: "hd ds \<noteq> ''0''"
  have "length (concat ds) = length ds"
    using k by (induction ds) (auto simp: keys_def)
  moreover have "hd (concat ds) \<noteq> CHR ''0''"
    using k ne h by (cases ds; cases "hd ds") (auto simp: keys_def)
  ultimately show ?thesis by simp
qed

text \<open>
  C4, as amended. When an operand is awaited, \<open>inputNumber d\<close> replaces the current value by
  \<open>d\<close> and clears the flag. Otherwise it replaces a current value that is exactly \<open>0\<close> by
  \<open>d\<close>, and appends \<open>d\<close> to any other current value, unless the result would be longer
  than 15 characters: then it shows a toast and leaves the state as it was. Hence digit
  keys entered from a state that awaits an operand or shows \<open>0\<close> leave the digits typed
  without their leading zeros, and exactly the digits typed when the first is not \<open>0\<close>,
  as long as at most 15 characters result.
\<close>

theorem inputNumber_digit:
  "(isWaitingForOperand m \<longrightarrow>
      currentValue (inputNumber d m) = d \<and> \<not> isWaitingForOperand (inputNumber d m))
   \<and> (\<not> isWaitingForOperand m \<and> currentValue m = ''0'' \<and> length d \<le> 15 \<longrightarrow>
      currentValue (inputNumber d m) = d)
   \<and> (\<not> isWaitingForOperand m \<and> currentValue m \<noteq> ''0'' \<and> length (currentValue m @ d) \<le> 15 \<longrightarrow>
      currentValue (inputNumber d m) = currentValue m @ d)
   \<and> (\<not> isWaitingForOperand m
       \<and> 15 < length (if currentValue m = ''0'' then d else currentValue m @ d) \<longrightarrow>
      inputNumber d m =
        m\<lparr>effects := effects m @ [ClearError, ShowToast ''Maximum digits reached'' ''error'']\<rparr>)
   \<and> (keys ds \<and> ds \<noteq> [] \<and> (isWaitingForOperand m \<or> currentValue m = ''0'')
       \<and> length (without_leading_zeros (concat ds)) \<le> 15 \<longrightarrow>
      currentValue (inputNumbers ds m) = without_leading_zeros (concat ds))
   \<and> (keys ds \<and> ds \<noteq> [] \<and> hd ds \<noteq> ''0'' \<and> (isWaitingForOperand m \<or> currentValue m = ''0'')
       \<and> length ds \<le> 15 \<longrightarrow>
      currentValue (inputNumbers ds m) = concat ds)"
proof (intro conjI impI)
  assume "isWaitingForOperand m"
  then show "currentValue (inputNumber d m) = d" "\<not> isWaitingForOperand (inputNumber d m)"
    by (simp_all add: inputNumber_waiting)
next
  assume "\<not> isWaitingForOperand m \<and> currentValue m = ''0'' \<and> length d \<le> 15"
  then show "currentValue (inputNumber d m) = d"
    by (simp add: inputNumber_accept [where v = d])
next
  assume "\<not> isWaitingForOperand m \<and> currentValue m \<noteq> ''0'' \<and> length (currentValue m @ d) \<le> 15"
  then show "currentValue (inputNumber d m) = currentValue m @ d"
    by (simp add: inputNumber_accept [where v = "currentValue m @ d"])
next
  assume "\<not> isWaitingForOperand m
       \<and> 15 < length (if currentValue m = ''0'' then d else currentValue m @ d)"
  then show "inputNumber d m =
        m\<lparr>effects := effects m @ [ClearError, ShowToast ''Maximum digits reached'' ''error'']\<rparr>"
    using inputNumber_reject [of m d] by simp
next
  assume "keys ds \<and> ds \<noteq> [] \<and> (isWaitingForOperand m \<or> currentValue m = ''0'')
       \<and> length (without_leading_zeros (concat ds)) \<le> 15"
  then show "currentValue (inputNumbers ds m) = without_leading_zeros (concat ds)"
    using inputNumbers_display [of m ds] by simp
next
  assume a: "keys ds \<and> ds \<noteq> [] \<and> hd ds \<noteq> ''0'' \<and> (isWaitingForOperand m \<or> currentValue m = ''0'')
       \<and> length ds \<le> 15"
  then have c: "hd (concat ds) \<noteq> CHR ''0''" "length (concat ds) = length ds" "concat ds \<noteq> []"
    using concat_keys [of ds] concat_keys_nonempty [of ds] by simp_all
  then have "without_leading_zeros (concat ds) = concat ds"
    by (simp add: wlz_no_leading_zero)
  then show "currentValue (inputNumbers ds m) = concat ds"
    using inputNumbers_display [of m ds] a c by simp
qed

theorem inputNumber_digit_witness:
  "currentValue (inputNumbers [''1'', ''2'', ''3''] initial) = ''123''
   \<and> currentValue (inputNumbers [''0'', ''0'', ''7''] initial) = ''7''
   \<and> currentValue (inputNumber ''4'' (initial\<lparr>isWaitingForOperand := True, currentValue := ''12''\<rparr>)) = ''4''
   \<and> currentValue (inputNumber ''4'' (initial\<lparr>currentValue := ''12''\<rparr>)) = ''124''
   \<and> inputNumber ''6'' (initial\<lparr>currentValue := ''123456789012345''\<rparr>)
       = initial\<lparr>currentValue := ''123456789012345'',
                 effects := [ClearError, ShowToast ''Maximum digits reached'' ''error'']\<rparr>"
proof -
  note t = inputNumber_digit [THEN conjunct2, THEN conjunct2, THEN conjunct2, THEN conjunct2]
  have 1: "currentValue (inputNumbers [''1'', ''2'', ''3''] initial) = ''123''"
    using t [of "[''1'', ''2'', ''3'']" initial, THEN conjunct2]
    by (simp add: keys_def initial_def)
  have 2: "currentValue (inputNumbers [''0'', ''0'', ''7''] initial) = ''7''"
    using t [of "[''0'', ''0'', ''7'']" initial, THEN conjunct1]
    by (simp add: keys_def initial_def without_leading_zeros_def)
  have 3: "currentValue (inputNumber ''4'' (initial\<lparr>isWaitingForOperand := True, currentValue := ''12''\<rparr>)) = ''4''"
    using inputNumber_digit [of "initial\<lparr>isWaitingForOperand := True, currentValue := ''12''\<rparr>" "''4''", THEN conjunct1]
    by simp
  have 4: "currentValue (inputNumber ''4'' (initial\<lparr>currentValue := ''12''\<rparr>)) = ''124''"
    using inputNumber_digit [of "initial\<lparr>currentValue := ''12''\<rparr>" "''4''", THEN conjunct2, THEN conjunct2, THEN conjunct1]
    by (simp add: initial_def)
  have 5: "inputNumber ''6'' (initial\<lparr>currentValue := ''123456789012345''\<rparr>)
       = initial\<lparr>currentValue := ''123456789012345'',
                 effects := [ClearError, ShowToast ''Maximum digits reached'' ''error'']\<rparr>"
    using inputNumber_digit [of "initial\<lparr>currentValue := ''123456789012345''\<rparr>" "''6''",
        THEN conjunct2, THEN conjunct2, THEN conjunct2, THEN conjunct1]
    by (simp add: initial_def)
  from 1 2 3 4 5 show ?thesis
    by (intro conjI)
qed

text \<open>
  The claim as stated fails: on the initial state, which awaits no operand and shows
  \<open>0\<close>, the key \<open>5\<close> is not appended, and the keys \<open>0\<close>, \<open>5\<close> leave \<open>5\<close>.
\<close>

theorem inputNumber_append_counterexample:
  "\<not> isWaitingForOperand initial
   \<and> length (currentValue initial @ ''5'') \<le> 15
   \<and> currentValue initial @ ''5'' = ''05''
   \<and> currentValue (inputNumber ''5'' initial) = ''5''
   \<and> currentValue (inputNumbers [''0'', ''5''] initial) = ''5''"
  by (simp add: initial_def inputNumbers_def inputNumber_def Let_def call_def setCurrentValue_def
      emit_valueChanged_def updateView_def)

section \<open>Evaluation\<close>

lemma calculate_Inl:
  "fst (calculate H op a b m) = Inl e \<Longrightarrow>
   calculate H op a b m = (Inl e, m\<lparr>effects := effects m @ [LoggerLog ''error'' ''Calculation error'']\<rparr>)"
  by (auto simp: calculate_def Let_def call_def split: sum.splits option.splits)

lemma calculate_Inr:
  "fst (calculate H op a b m) = Inr v \<Longrightarrow>
   calculate H op a b m =
     (Inr v, m\<lparr>effects := effects m @ [LoggerLog ''info''
        (''Calculation: '' @ toString a @ '' '' @ op @ '' '' @ toString b @ '' = '' @ ToString v)]\<rparr>)"
  by (auto simp: calculate_def Let_def call_def split: sum.splits option.splits)

lemma calculate_fst_effects:
  "fst (calculate H op a b (m\<lparr>effects := es\<rparr>)) = fst (calculate H op a b m)"
  by (auto simp: calculate_def Let_def split: sum.splits option.splits)

lemma scientificCalculate_Inl:
  "fst (scientificCalculate H f v m) = Inl e \<Longrightarrow>
   scientificCalculate H f v m =
     (Inl e, m\<lparr>effects := effects m @ [LoggerLog ''error'' ''Scientific calculation error'']\<rparr>)"
  by (auto simp: scientificCalculate_def Let_def call_def split: sum.splits option.splits)

lemma scientificCalculate_Inr:
  "fst (scientificCalculate H f v m) = Inr x \<Longrightarrow>
   scientificCalculate H f v m =
     (Inr x, m\<lparr>effects := effects m @ [LoggerLog ''info''
        (''Scientific calculation: '' @ f @ ''('' @ toString v @ '') = '' @ ToString x)]\<rparr>)"
  by (auto simp: scientificCalculate_def Let_def call_def split: sum.splits option.splits)

lemma evaluate_idle:
  "operator m = None \<or> previousValue m = '''' \<or> isNaN (parseFloat (currentValue m)) \<Longrightarrow>
   evaluate H clk m = m"
  by (auto simp: evaluate_def Let_def split: option.splits)

lemma evaluate_error:
  assumes "operator m = Some op" and "previousValue m \<noteq> ''''"
    and "\<not> isNaN (parseFloat (currentValue m))"
    and "fst (calculate H op (parseFloat (previousValue m)) (parseFloat (currentValue m)) m) = Inl e"
  shows "evaluate H clk m =
     m\<lparr>effects := effects m @ [LoggerLog ''error'' ''Calculation error'', ShowError (message e)]\<rparr>"
  using assms calculate_Inl [OF assms(4)]
  by (simp add: evaluate_def Let_def call_def)

lemma formatNumber_ctl_eq:
  "formatNumber_ctl r m =
     (formatted r,
      case formatNumber r of Inr s \<Rightarrow> m | Inl e \<Rightarrow> m\<lparr>effects := effects m @ [ShowError ''Invalid number'']\<rparr>)"
  by (simp add: formatNumber_ctl_def formatted_def call_def split: sum.splits)

lemma evaluate_success:
  assumes "operator m = Some op" and "previousValue m \<noteq> ''''"
    and "\<not> isNaN (parseFloat (currentValue m))"
    and "fst (calculate H op (parseFloat (previousValue m)) (parseFloat (currentValue m)) m) = Inr r"
  shows "currentValue (evaluate H clk m) = formatted r"
    and "previousValue (evaluate H clk m) = ''''"
    and "operator (evaluate H clk m) = None"
    and "isWaitingForOperand (evaluate H clk m)"
    and "history (evaluate H clk m) =
           previousValue m @ '' '' @ op @ '' '' @ toString (parseFloat (currentValue m)) @ '' =''"
    and "memoryValue (evaluate H clk m) = memoryValue m"
    and "currentStrategy (evaluate H clk m) = currentStrategy m"
    and "calculationHistory (evaluate H clk m) =
           take 100 (\<lparr>item_id = fst clk,
                      expression = previousValue m @ '' '' @ op @ '' '' @ toString (parseFloat (currentValue m)),
                      result = formatted r, timestamp = snd clk\<rparr> # calculationHistory m)"
  using assms calculate_Inr [OF assms(4)]
  by (simp_all add: evaluate_def Let_def call_def formatNumber_ctl_eq addToHistory_def saveState_def
      emit_historyUpdated_def setCurrentValue_def emit_valueChanged_def setPreviousValue_def
      setOperator_def setWaitingForOperand_def setHistory_def updateView_def split: sum.splits)

lemma getState_effects: "getState (m\<lparr>effects := es\<rparr>) = getState m"
  by (simp add: getState_def)

text \<open>
  C10. Calling \<open>evaluate\<close> twice in a row leaves the engine state and the calculation log
  as one call does, whatever string the pending operator is. \<open>evaluate\<close> is a no-op when
  no operator or no previous value is pending; a call whose operation returns (a number
  from the table, or what a name inherited from \<open>Object.prototype\<close> returns) clears the
  operator and the previous value, so the second call changes nothing at all; a call
  whose operation throws leaves the engine state as it was.
\<close>

theorem evaluate_idempotent:
  "getState (evaluate H c2 (evaluate H c1 m)) = getState (evaluate H c1 m)
   \<and> calculationHistory (evaluate H c2 (evaluate H c1 m)) = calculationHistory (evaluate H c1 m)
   \<and> currentStrategy (evaluate H c2 (evaluate H c1 m)) = currentStrategy (evaluate H c1 m)
   \<and> (operator m = None \<or> previousValue m = '''' \<longrightarrow> evaluate H c1 m = m)
   \<and> (\<forall>op r. operator m = Some op \<and> previousValue m \<noteq> ''''
         \<and> \<not> isNaN (parseFloat (currentValue m))
         \<and> fst (calculate H op (parseFloat (previousValue m)) (parseFloat (currentValue m)) m) = Inr r
       \<longrightarrow> operator (evaluate H c1 m) = None \<and> previousValue (evaluate H c1 m) = ''''
           \<and> evaluate H c2 (evaluate H c1 m) = evaluate H c1 m)"
proof -
  let ?m1 = "evaluate H c1 m"
  have idle: "operator m = None \<or> previousValue m = '''' \<Longrightarrow> ?m1 = m"
    by (auto simp: evaluate_idle)
  have success: "operator ?m1 = None \<and> previousValue ?m1 = '''' \<and> evaluate H c2 ?m1 = ?m1"
    if "operator m = Some op" "previousValue m \<noteq> ''''" "\<not> isNaN (parseFloat (currentValue m))"
      "fst (calculate H op (parseFloat (previousValue m)) (parseFloat (currentValue m)) m) = Inr r"
    for op r
    using evaluate_success(2,3) [OF that, of c1] by (simp add: evaluate_idle)
  have twice: "getState (evaluate H c2 ?m1) = getState ?m1
      \<and> calculationHistory (evaluate H c2 ?m1) = calculationHistory ?m1
      \<and> currentStrategy (evaluate H c2 ?m1) = currentStrategy ?m1"
  proof (cases "operator m = None \<or> previousValue m = '''' \<or> isNaN (parseFloat (currentValue m))")
    case True
    then have 1: "?m1 = m" by (rule evaluate_idle)
    from True have "evaluate H c2 m = m" by (rule evaluate_idle)
    with 1 show ?thesis by simp
  next
    case False
    then obtain op where p: "operator m = Some op" "previousValue m \<noteq> ''''"
        "\<not> isNaN (parseFloat (currentValue m))"
      by auto
    let ?a = "parseFloat (previousValue m)" and ?b = "parseFloat (currentValue m)"
    show ?thesis
    proof (cases "fst (calculate H op ?a ?b m)")
      case (Inl e)
      let ?es = "effects m @ [LoggerLog ''error'' ''Calculation error'', ShowError (message e)]"
      have 1: "?m1 = m\<lparr>effects := ?es\<rparr>"
        using evaluate_error [OF p Inl] .
      have "fst (calculate H op (parseFloat (previousValue (m\<lparr>effects := ?es\<rparr>)))
               (parseFloat (currentValue (m\<lparr>effects := ?es\<rparr>))) (m\<lparr>effects := ?es\<rparr>)) = Inl e"
        using Inl by (simp add: calculate_fst_effects)
      from evaluate_error [OF _ _ _ this, of c2] p
      have "evaluate H c2 (m\<lparr>effects := ?es\<rparr>) =
              m\<lparr>effects := ?es @ [LoggerLog ''error'' ''Calculation error'', ShowError (message e)]\<rparr>"
        by simp
      with 1 show ?thesis
        by (simp add: getState_def)
    next
      case (Inr r)
      from success [OF p Inr] show ?thesis by simp
    qed
  qed
  from idle success twice show ?thesis
    by (intro conjI allI impI) simp_all
qed

lemma finish_scientific_fields:
  "currentValue (finish_scientific clk func r m) = formatted r"
  "isWaitingForOperand (finish_scientific clk func r m)"
  "previousValue (finish_scientific clk func r m) = previousValue m"
  "operator (finish_scientific clk func r m) = operator m"
  "history (finish_scientific clk func r m) = history m"
  "memoryValue (finish_scientific clk func r m) = memoryValue m"
  "calculationHistory (finish_scientific clk func r m) =
     take 100 (\<lparr>item_id = fst clk,
                expression = (if func = ''pi'' \<or> func = ''e'' then func else func @ ''('' @ formatted r @ '')''),
                result = formatted r, timestamp = snd clk\<rparr> # calculationHistory m)"
  by (simp_all add: finish_scientific_def Let_def call_def formatNumber_ctl_eq addToHistory_def
      saveState_def emit_historyUpdated_def setCurrentValue_def emit_valueChanged_def
      setWaitingForOperand_def updateView_def split: sum.splits)

lemma finish_scientific_invalid:
  "formatNumber r = Inl e \<Longrightarrow> ShowError ''Invalid number'' \<in> set (effects (finish_scientific clk func r m))"
  by (simp add: finish_scientific_def Let_def call_def formatNumber_ctl_eq addToHistory_def
      saveState_def emit_historyUpdated_def setCurrentValue_def emit_valueChanged_def
      setWaitingForOperand_def updateView_def split: sum.splits)

lemma evaluate_invalid:
  assumes "operator m = Some op" and "previousValue m \<noteq> ''''"
    and "\<not> isNaN (parseFloat (currentValue m))"
    and "fst (calculate H op (parseFloat (previousValue m)) (parseFloat (currentValue m)) m) = Inr r"
    and "formatNumber r = Inl e"
  shows "ShowError ''Invalid number'' \<in> set (effects (evaluate H clk m))"
  using assms calculate_Inr [OF assms(4)]
  by (simp add: evaluate_def Let_def call_def formatNumber_ctl_eq addToHistory_def saveState_def
      emit_historyUpdated_def setCurrentValue_def emit_valueChanged_def setPreviousValue_def
      setOperator_def setWaitingForOperand_def setHistory_def updateView_def split: sum.splits)

lemma performScientificFunction_error:
  assumes "func \<noteq> ''pi''" and "func \<noteq> ''e''" and "\<not> isNaN (parseFloat (currentValue m))"
    and "fst (scientificCalculate H func (parseFloat (currentValue m)) m) = Inl e"
  shows "performScientificFunction H clk func m =
     m\<lparr>effects := effects m @ [ClearError, LoggerLog ''error'' ''Scientific calculation error'',
                                ShowError (message e)]\<rparr>"
proof -
  have "fst (scientificCalculate H func (parseFloat (currentValue m)) (call ClearError m)) = Inl e"
    using assms(4) by (simp add: scientificCalculate_def Let_def split: sum.splits option.splits)
  from scientificCalculate_Inl [OF this] assms(1-3) show ?thesis
    by (simp add: performScientificFunction_def Let_def call_def)
qed

lemma performScientificFunction_success:
  assumes "func \<noteq> ''pi''" and "func \<noteq> ''e''" and "\<not> isNaN (parseFloat (currentValue m))"
    and "fst (scientificCalculate H func (parseFloat (currentValue m)) m) = Inr r"
  shows "performScientificFunction H clk func m =
           finish_scientific clk func r
             (m\<lparr>effects := effects m @ [ClearError, LoggerLog ''info''
                (''Scientific calculation: '' @ func @ ''('' @ toString (parseFloat (currentValue m))
                 @ '') = '' @ ToString r)]\<rparr>)"
proof -
  have "fst (scientificCalculate H func (parseFloat (currentValue m)) (call ClearError m)) = Inr r"
    using assms(4) by (simp add: scientificCalculate_def Let_def split: sum.splits option.splits)
  from scientificCalculate_Inr [OF this] assms(1-3) show ?thesis
    by (simp add: performScientificFunction_def Let_def call_def)
qed

text \<open>
  C1, as amended. When the operation itself throws (division by zero, a domain error, an
  unknown operation, a \<open>TypeError\<close> from a name inherited from \<open>Object.prototype\<close>),
  \<open>evaluate\<close> and \<open>performScientificFunction\<close> leave the engine state and the calculation
  log as they were and show the message of the error through the view. When the
  operation returns a value that cannot be formatted (NaN, an infinity, or a value that
  is not a number, as an inherited \<open>toString\<close> returns), the controller shows
  \<open>Invalid number\<close> and completes the evaluation with the result \<open>0\<close>: the current value
  becomes \<open>0\<close>, an operand is awaited and the log gets an entry with the result \<open>0\<close>.
\<close>

theorem failing_evaluation:
  "(operator m = Some op \<and> previousValue m \<noteq> '''' \<and> \<not> isNaN (parseFloat (currentValue m))
      \<and> fst (calculate H op (parseFloat (previousValue m)) (parseFloat (currentValue m)) m) = Inl e
     \<longrightarrow> evaluate H clk m =
           m\<lparr>effects := effects m @ [LoggerLog ''error'' ''Calculation error'', ShowError (message e)]\<rparr>)
   \<and> (func \<noteq> ''pi'' \<and> func \<noteq> ''e'' \<and> \<not> isNaN (parseFloat (currentValue m))
      \<and> fst (scientificCalculate H func (parseFloat (currentValue m)) m) = Inl e
     \<longrightarrow> performScientificFunction H clk func m =
           m\<lparr>effects := effects m @ [ClearError, LoggerLog ''error'' ''Scientific calculation error'',
                                      ShowError (message e)]\<rparr>)
   \<and> (operator m = Some op \<and> previousValue m \<noteq> '''' \<and> \<not> isNaN (parseFloat (currentValue m))
      \<and> fst (calculate H op (parseFloat (previousValue m)) (parseFloat (currentValue m)) m) = Inr r
      \<and> formatNumber r = Inl e
     \<longrightarrow> ShowError ''Invalid number'' \<in> set (effects (evaluate H clk m))
         \<and> currentValue (evaluate H clk m) = ''0''
         \<and> previousValue (evaluate H clk m) = '''' \<and> operator (evaluate H clk m) = None
         \<and> isWaitingForOperand (evaluate H clk m)
         \<and> calculationHistory (evaluate H clk m) =
             take 100 (\<lparr>item_id = fst clk,
                        expression = previousValue m @ '' '' @ op @ '' '' @ toString (parseFloat (currentValue m)),
                        result = ''0'', timestamp = snd clk\<rparr> # calculationHistory m))
   \<and> (func \<noteq> ''pi'' \<and> func \<noteq> ''e'' \<and> \<not> isNaN (parseFloat (currentValue m))
      \<and> fst (scientificCalculate H func (parseFloat (currentValue m)) m) = Inr r
      \<and> formatNumber r = Inl e
     \<longrightarrow> ShowError ''Invalid number'' \<in> set (effects (performScientificFunction H clk func m))
         \<and> currentValue (performScientificFunction H clk func m) = ''0''
         \<and> isWaitingForOperand (performScientificFunction H clk func m)
         \<and> calculationHistory (performScientificFunction H clk func m) =
             take 100 (\<lparr>item_id = fst clk, expression = func @ ''(0)'',
                        result = ''0'', timestamp = snd clk\<rparr> # calculationHistory m))"
proof (intro conjI impI)
  assume "operator m = Some op \<and> previousValue m \<noteq> '''' \<and> \<not> isNaN (parseFloat (currentValue m))
      \<and> fst (calculate H op (parseFloat (previousValue m)) (parseFloat (currentValue m)) m) = Inl e"
  then show "evaluate H clk m =
           m\<lparr>effects := effects m @ [LoggerLog ''error'' ''Calculation error'', ShowError (message e)]\<rparr>"
    using evaluate_error [of m op H e clk] by simp
next
  assume "func \<noteq> ''pi'' \<and> func \<noteq> ''e'' \<and> \<not> isNaN (parseFloat (currentValue m))
      \<and> fst (scientificCalculate H func (parseFloat (currentValue m)) m) = Inl e"
  then show "performScientificFunction H clk func m =
           m\<lparr>effects := effects m @ [ClearError, LoggerLog ''error'' ''Scientific calculation error'',
                                      ShowError (message e)]\<rparr>"
    using performScientificFunction_error [of func m H e clk] by simp
next
  assume a: "operator m = Some op \<and> previousValue m \<noteq> '''' \<and> \<not> isNaN (parseFloat (currentValue m))
      \<and> fst (calculate H op (parseFloat (previousValue m)) (parseFloat (currentValue m)) m) = Inr r
      \<and> formatNumber r = Inl e"
  then have f: "formatted r = ''0''"
    by (simp add: formatted_def)
  from a have p: "operator m = Some op" "previousValue m \<noteq> ''''" "\<not> isNaN (parseFloat (currentValue m))"
    "fst (calculate H op (parseFloat (previousValue m)) (parseFloat (currentValue m)) m) = Inr r"
    "formatNumber r = Inl e"
    by simp_all
  show "ShowError ''Invalid number'' \<in> set (effects (evaluate H clk m))"
    by (rule evaluate_invalid [OF p])
  show "currentValue (evaluate H clk m) = ''0''"
    using evaluate_success(1) [OF p(1-4)] f by simp
  show "previousValue (evaluate H clk m) = ''''"
    by (rule evaluate_success(2) [OF p(1-4)])
  show "operator (evaluate H clk m) = None"
    by (rule evaluate_success(3) [OF p(1-4)])
  show "isWaitingForOperand (evaluate H clk m)"
    by (rule evaluate_success(4) [OF p(1-4)])
  show "calculationHistory (evaluate H clk m) =
             take 100 (\<lparr>item_id = fst clk,
                        expression = previousValue m @ '' '' @ op @ '' '' @ toString (parseFloat (currentValue m)),
                        result = ''0'', timestamp = snd clk\<rparr> # calculationHistory m)"
    using evaluate_success(8) [OF p(1-4), of clk] f by simp
next
  assume a: "func \<noteq> ''pi'' \<and> func \<noteq> ''e'' \<and> \<not> isNaN (parseFloat (currentValue m))
      \<and> fst (scientificCalculate H func (parseFloat (currentValue m)) m) = Inr r
      \<and> formatNumber r = Inl e"
  then have f: "formatted r = ''0''"
    by (simp add: formatted_def)
  define m1 where "m1 = m\<lparr>effects := effects m @ [ClearError, LoggerLog ''info''
                (''Scientific calculation: '' @ func @ ''('' @ toString (parseFloat (currentValue m))
                 @ '') = '' @ ToString r)]\<rparr>"
  have m1: "performScientificFunction H clk func m = finish_scientific clk func r m1"
      "calculationHistory m1 = calculationHistory m"
    using a performScientificFunction_success [of func m H r clk] by (simp_all add: m1_def)
  show "ShowError ''Invalid number'' \<in> set (effects (performScientificFunction H clk func m))"
    using m1 a finish_scientific_invalid [of r e clk func m1] by simp
  show "currentValue (performScientificFunction H clk func m) = ''0''"
    using m1 f by (simp add: finish_scientific_fields)
  show "isWaitingForOperand (performScientificFunction H clk func m)"
    using m1 by (simp add: finish_scientific_fields)
  show "calculationHistory (performScientificFunction H clk func m) =
             take 100 (\<lparr>item_id = fst clk, expression = func @ ''(0)'',
                        result = ''0'', timestamp = snd clk\<rparr> # calculationHistory m)"
    using m1 f a by (simp add: finish_scientific_fields)
qed

lemma parseFloat_values:
  "parseFloat ''0'' = Fin 0" "parseFloat ''3'' = Fin 3" "parseFloat ''5'' = Fin 5"
  "parseFloat ''-4'' = Fin (- 4)" "parseFloat ''4'' = Fin 4"
  by (simp_all add: parseFloat_eval)

lemma fl_3: "fl 3 = Fin 3"
  by (simp add: fl_numeral)

lemma ilog10_5: "ilog 10 5 = 0"
  by (rule ilog_eq) simp_all

lemma ilog10_3: "ilog 10 3 = 0"
  by (rule ilog_eq) simp_all

lemma positive_toString_5: "positive_toString 5 = ''5''"
  by (simp add: positive_toString_def shortest_eval ilog10_5 digits_eval fl_5)

lemma positive_toString_3: "positive_toString 3 = ''3''"
  by (simp add: positive_toString_def shortest_eval ilog10_3 digits_eval fl_3)

lemma formatNumber_wrapped_5: "formatNumber (NumberObject (Fin 5)) = Inr ''5''"
  by (simp add: formatNumber_def isNaN_def Let_def positive_toString_5 js_ge_def js_le_def)

lemma formatNumber_false: "formatNumber (Boolean False) = Inr ''false''"
  by (simp add: formatNumber_def isNaN_def Let_def js_ge_def js_le_def)

lemma formatNumber_ObjectObject: "formatNumber ObjectObject = Inl InvalidNumber"
  by (simp add: formatNumber_def isNaN_def)

text \<open>Names that the tables inherit from \<open>Object.prototype\<close>.\<close>

lemma calculate_constructor:
  "currentStrategy m = basic \<Longrightarrow> fst (calculate H ''constructor'' a b m) = Inr (NumberObject a)"
  by (simp add: calculate_def operations_def get_property_def basic_operations_def
      Object_prototype_def invoke_def Object_prototype_call_def Let_def)

lemma calculate_hasOwnProperty:
  "currentStrategy m = basic \<Longrightarrow>
   fst (calculate H ''hasOwnProperty'' (Fin 5) b m) = Inr (Boolean False)"
  by (simp add: calculate_def operations_def get_property_def basic_operations_def
      Object_prototype_def invoke_def Object_prototype_call_def Let_def positive_toString_5)

lemma calculate_proto:
  "currentStrategy m = basic \<Longrightarrow>
   fst (calculate H ''__proto__'' a b m)
     = Inl (TypeError (TypeError_message H ''strategy.operations[op]''))"
  by (simp add: calculate_def operations_def get_property_def basic_operations_def
      Object_prototype_def invoke_def Object_prototype_call_def Let_def)

lemma calculate_inherited_strategy:
  "currentStrategy m = inherited name \<Longrightarrow>
   fst (calculate H op a b m) = Inl (TypeError (TypeError_message H ''strategy.operations''))"
  by (simp add: calculate_def operations_def Let_def)

lemma setStrategy_inherited:
  "setStrategy ''toString'' m =
     Inr (m\<lparr>currentStrategy := inherited ''toString'',
            effects := effects m @ [LoggerLog ''info'' ''Strategy changed to: toString'']\<rparr>)"
  by (simp add: setStrategy_def get_property_def CalculationStrategies_def Object_prototype_def
      call_def)

lemma scientificCalculate_toString:
  "fst (scientificCalculate H ''toString'' v m) = Inr ObjectObject"
  by (simp add: scientificCalculate_def get_property_def scientific_operations_def
      Object_prototype_def invoke_def Object_prototype_call_def Let_def)

lemma fl_8: "fl 8 = Fin 8"
  by (simp add: fl_numeral)

lemma ilog10_8: "ilog 10 8 = 0"
  by (rule ilog_eq) simp_all

lemma positive_toString_8: "positive_toString 8 = ''8''"
  by (simp add: positive_toString_def shortest_eval ilog10_8 digits_eval)

lemma formatNumber_8: "formatNumber (Number (Fin 8)) = Inr ''8''"
  by (simp add: formatNumber_def isNaN_def Let_def positive_toString_8 js_ge_def js_le_def)

lemma formatNumber_NaN: "formatNumber (Number NaN) = Inl InvalidNumber"
  by (simp add: formatNumber_def isNaN_def)

lemma operations_basic_mod: "operations H basic ''%'' = Some (\<lambda>a b. Inr (Number (js_mod a b)))"
  by (simp add: operations_def basic_operations_def get_property_def invoke_def)

lemma calculate_mod:
  "currentStrategy m = basic \<Longrightarrow> fst (calculate H ''%'' a b m) = Inr (Number (js_mod a b))"
  by (simp add: calculate_def operations_basic_mod Let_def)

lemma pending_fields:
  "currentValue (pending a op b) = b" "previousValue (pending a op b) = a"
  "operator (pending a op b) = Some op" "currentStrategy (pending a op b) = basic"
  "calculationHistory (pending a op b) = []" "effects (pending a op b) = []"
  "history (pending a op b) = a @ '' '' @ op" "memoryValue (pending a op b) = Fin 0"
  "isWaitingForOperand (pending a op b) = False"
  by (simp_all add: pending_def initial_def)

lemma sqrt_negative:
  "fst (scientificCalculate H ''sqrt'' (Fin (- 4)) m) = Inl InvalidSquareRoot"
  by (simp add: scientificCalculate_def scientific_operations_def get_property_def invoke_def Let_def)

theorem failing_evaluation_witness:
  "evaluate ideal_host (1, ''t'') (pending ''5'' ''/'' ''0'')
     = (pending ''5'' ''/'' ''0'')
         \<lparr>effects := [LoggerLog ''error'' ''Calculation error'', ShowError ''Division by zero'']\<rparr>
   \<and> performScientificFunction ideal_host (1, ''t'') ''sqrt'' (initial\<lparr>currentValue := ''-4''\<rparr>)
     = initial\<lparr>currentValue := ''-4'',
               effects := [ClearError, LoggerLog ''error'' ''Scientific calculation error'',
                           ShowError ''Invalid square root input'']\<rparr>
   \<and> evaluate ideal_host (1, ''t'') (pending ''5'' ''__proto__'' ''3'')
     = (pending ''5'' ''__proto__'' ''3'')
         \<lparr>effects := [LoggerLog ''error'' ''Calculation error'',
                      ShowError ''strategy.operations[op] is not a function'']\<rparr>
   \<and> currentValue (performScientificFunction ideal_host (1, ''t'') ''toString''
         (initial\<lparr>currentValue := ''4''\<rparr>)) = ''0''
   \<and> isWaitingForOperand (performScientificFunction ideal_host (1, ''t'') ''toString''
         (initial\<lparr>currentValue := ''4''\<rparr>))
   \<and> calculationHistory (performScientificFunction ideal_host (1, ''t'') ''toString''
         (initial\<lparr>currentValue := ''4''\<rparr>))
     = [\<lparr>item_id = 1, expression = ''toString(0)'', result = ''0'', timestamp = ''t''\<rparr>]"
proof -
  let ?m = "pending ''5'' ''/'' ''0''"
  have d: "fst (calculate ideal_host ''/'' (parseFloat (previousValue ?m)) (parseFloat (currentValue ?m)) ?m)
             = Inl DivisionByZero"
    by (simp add: pending_fields parseFloat_values calculate_divide)
  have 1: "evaluate ideal_host (1, ''t'') ?m
     = ?m\<lparr>effects := [LoggerLog ''error'' ''Calculation error'', ShowError ''Division by zero'']\<rparr>"
    using failing_evaluation [of ?m "''/''" ideal_host DivisionByZero "(1, ''t'')", THEN conjunct1] d
    by (simp add: pending_fields parseFloat_values isNaN_def DivisionByZero_def)
  let ?s = "initial\<lparr>currentValue := ''-4''\<rparr>"
  have 2: "performScientificFunction ideal_host (1, ''t'') ''sqrt'' ?s
     = ?s\<lparr>effects := effects ?s @ [ClearError, LoggerLog ''error'' ''Scientific calculation error'',
                           ShowError (message InvalidSquareRoot)]\<rparr>"
    using failing_evaluation [of ?s _ ideal_host InvalidSquareRoot "(1, ''t'')" "''sqrt''",
        THEN conjunct2, THEN conjunct1] sqrt_negative [of ideal_host ?s]
    by (simp add: parseFloat_values isNaN_def)
  let ?p = "pending ''5'' ''__proto__'' ''3''"
  let ?e = "TypeError (TypeError_message ideal_host ''strategy.operations[op]'')"
  have "fst (calculate ideal_host ''__proto__'' (parseFloat (previousValue ?p))
               (parseFloat (currentValue ?p)) ?p) = Inl ?e"
    by (simp add: pending_fields calculate_proto)
  with failing_evaluation [of ?p "''__proto__''" ideal_host ?e "(1, ''t'')", THEN conjunct1]
  have 3: "evaluate ideal_host (1, ''t'') ?p
     = ?p\<lparr>effects := [LoggerLog ''error'' ''Calculation error'',
                      ShowError ''strategy.operations[op] is not a function'']\<rparr>"
    by (simp add: pending_fields parseFloat_values isNaN_def ideal_host_def)
  let ?u = "initial\<lparr>currentValue := ''4''\<rparr>"
  have "fst (scientificCalculate ideal_host ''toString'' (parseFloat (currentValue ?u)) ?u)
          = Inr ObjectObject"
    by (rule scientificCalculate_toString)
  with failing_evaluation [of ?u _ ideal_host InvalidNumber "(1, ''t'')" "''toString''" ObjectObject,
      THEN conjunct2, THEN conjunct2, THEN conjunct2]
  have 4: "currentValue (performScientificFunction ideal_host (1, ''t'') ''toString'' ?u) = ''0''
     \<and> isWaitingForOperand (performScientificFunction ideal_host (1, ''t'') ''toString'' ?u)
     \<and> calculationHistory (performScientificFunction ideal_host (1, ''t'') ''toString'' ?u)
       = [\<lparr>item_id = 1, expression = ''toString(0)'', result = ''0'', timestamp = ''t''\<rparr>]"
    by (simp add: parseFloat_values isNaN_def formatNumber_ObjectObject initial_def)
  from 1 2 have "evaluate ideal_host (1, ''t'') (pending ''5'' ''/'' ''0'')
     = (pending ''5'' ''/'' ''0'')
         \<lparr>effects := [LoggerLog ''error'' ''Calculation error'', ShowError ''Division by zero'']\<rparr>
   \<and> performScientificFunction ideal_host (1, ''t'') ''sqrt'' (initial\<lparr>currentValue := ''-4''\<rparr>)
     = initial\<lparr>currentValue := ''-4'',
               effects := [ClearError, LoggerLog ''error'' ''Scientific calculation error'',
                           ShowError ''Invalid square root input'']\<rparr>"
    by (simp add: initial_def InvalidSquareRoot_def)
  with 3 4 show ?thesis
    by (intro conjI) simp_all
qed

text \<open>
  The claim as stated fails: after the keys \<open>0\<close>, \<open>%\<close>, \<open>0\<close> the remainder is NaN, its
  formatting fails, and \<open>evaluate\<close> still clears the pending operation and adds a log
  entry.
\<close>

theorem failed_formatting_counterexample:
  "fst (calculate ideal_host ''%'' (parseFloat ''0'') (parseFloat ''0'') (pending ''0'' ''%'' ''0'')) = Inr (Number NaN)
   \<and> formatNumber (Number NaN) = Inl InvalidNumber
   \<and> getState (pending ''0'' ''%'' ''0'')
       = \<lparr>s_currentValue = ''0'', s_previousValue = ''0'', s_operator = Some ''%'',
          s_isWaitingForOperand = False, s_history = ''0 %'', s_memoryValue = Fin 0\<rparr>
   \<and> getState (evaluate ideal_host (1, ''t'') (pending ''0'' ''%'' ''0''))
       = \<lparr>s_currentValue = ''0'', s_previousValue = '''', s_operator = None,
          s_isWaitingForOperand = True, s_history = ''0 % 0 ='', s_memoryValue = Fin 0\<rparr>
   \<and> calculationHistory (pending ''0'' ''%'' ''0'') = []
   \<and> calculationHistory (evaluate ideal_host (1, ''t'') (pending ''0'' ''%'' ''0''))
       = [\<lparr>item_id = 1, expression = ''0 % 0'', result = ''0'', timestamp = ''t''\<rparr>]"
proof -
  let ?m = "pending ''0'' ''%'' ''0''"
  have c: "fst (calculate ideal_host ''%'' (parseFloat ''0'') (parseFloat ''0'') ?m) = Inr (Number NaN)"
    by (simp add: calculate_mod pending_fields parseFloat_values)
  have p: "operator ?m = Some ''%''" "previousValue ?m \<noteq> ''''"
    "\<not> isNaN (parseFloat (currentValue ?m))"
    "fst (calculate ideal_host ''%'' (parseFloat (previousValue ?m)) (parseFloat (currentValue ?m)) ?m) = Inr (Number NaN)"
    using c by (simp_all add: pending_fields parseFloat_values isNaN_def)
  have f: "formatted (Number NaN) = ''0''"
    by (simp add: formatted_def formatNumber_NaN)
  note s = evaluate_success [OF p, of "(1, ''t'')"]
  have before: "getState ?m
       = \<lparr>s_currentValue = ''0'', s_previousValue = ''0'', s_operator = Some ''%'',
          s_isWaitingForOperand = False, s_history = ''0 %'', s_memoryValue = Fin 0\<rparr>"
    by (simp add: getState_def pending_fields)
  have after: "getState (evaluate ideal_host (1, ''t'') ?m)
       = \<lparr>s_currentValue = ''0'', s_previousValue = '''', s_operator = None,
          s_isWaitingForOperand = True, s_history = ''0 % 0 ='', s_memoryValue = Fin 0\<rparr>"
    using s f by (simp add: getState_def pending_fields parseFloat_values)
  have log: "calculationHistory (evaluate ideal_host (1, ''t'') ?m)
       = [\<lparr>item_id = 1, expression = ''0 % 0'', result = ''0'', timestamp = ''t''\<rparr>]"
    using s(8) f by (simp add: pending_fields parseFloat_values)
  from c formatNumber_NaN before after log show ?thesis
    by (simp add: pending_fields)
qed

theorem evaluate_idempotent_witness:
  "evaluate ideal_host (2, ''u'') (evaluate ideal_host (1, ''t'') (pending ''5'' ''+'' ''3''))
     = evaluate ideal_host (1, ''t'') (pending ''5'' ''+'' ''3'')
   \<and> currentValue (evaluate ideal_host (1, ''t'') (pending ''5'' ''+'' ''3'')) = ''8''
   \<and> operator (evaluate ideal_host (1, ''t'') (pending ''5'' ''+'' ''3'')) = None
   \<and> getState (evaluate ideal_host (2, ''u'') (evaluate ideal_host (1, ''t'') (pending ''5'' ''/'' ''0'')))
     = getState (evaluate ideal_host (1, ''t'') (pending ''5'' ''/'' ''0''))
   \<and> evaluate ideal_host (2, ''u'') (evaluate ideal_host (1, ''t'') (pending ''5'' ''constructor'' ''3''))
     = evaluate ideal_host (1, ''t'') (pending ''5'' ''constructor'' ''3'')
   \<and> currentValue (evaluate ideal_host (1, ''t'') (pending ''5'' ''constructor'' ''3'')) = ''5''
   \<and> operator (evaluate ideal_host (1, ''t'') (pending ''5'' ''constructor'' ''3'')) = None
   \<and> evaluate ideal_host (2, ''u'') (evaluate ideal_host (1, ''t'') (pending ''5'' ''hasOwnProperty'' ''3''))
     = evaluate ideal_host (1, ''t'') (pending ''5'' ''hasOwnProperty'' ''3'')
   \<and> currentValue (evaluate ideal_host (1, ''t'') (pending ''5'' ''hasOwnProperty'' ''3'')) = ''false''"
proof -
  let ?m = "pending ''5'' ''+'' ''3''"
  have c: "fst (calculate ideal_host ''+'' (parseFloat (previousValue ?m)) (parseFloat (currentValue ?m)) ?m)
             = Inr (Number (Fin 8))"
    by (simp add: calculate_plus pending_fields parseFloat_values fl_8)
  have p: "operator ?m = Some ''+'' \<and> previousValue ?m \<noteq> ''''
      \<and> \<not> isNaN (parseFloat (currentValue ?m))
      \<and> fst (calculate ideal_host ''+'' (parseFloat (previousValue ?m)) (parseFloat (currentValue ?m)) ?m)
          = Inr (Number (Fin 8))"
    using c by (simp add: pending_fields parseFloat_values isNaN_def)
  note t = evaluate_idempotent [of ideal_host "(2, ''u'')" "(1, ''t'')"]
  from t [of ?m, THEN conjunct2, THEN conjunct2, THEN conjunct2, THEN conjunct2, rule_format, OF p]
  have 1: "operator (evaluate ideal_host (1, ''t'') ?m) = None"
    and 2: "evaluate ideal_host (2, ''u'') (evaluate ideal_host (1, ''t'') ?m) = evaluate ideal_host (1, ''t'') ?m"
    by simp_all
  have 3: "currentValue (evaluate ideal_host (1, ''t'') ?m) = ''8''"
    using evaluate_success(1) [of ?m "''+''" ideal_host "Number (Fin 8)" "(1, ''t'')"] p
    by (simp add: formatted_def formatNumber_8)
  from t [of "pending ''5'' ''/'' ''0''", THEN conjunct1]
  have 4: "getState (evaluate ideal_host (2, ''u'') (evaluate ideal_host (1, ''t'') (pending ''5'' ''/'' ''0'')))
     = getState (evaluate ideal_host (1, ''t'') (pending ''5'' ''/'' ''0''))" .
  let ?c = "pending ''5'' ''constructor'' ''3''"
  have pc: "operator ?c = Some ''constructor'' \<and> previousValue ?c \<noteq> ''''
      \<and> \<not> isNaN (parseFloat (currentValue ?c))
      \<and> fst (calculate ideal_host ''constructor'' (parseFloat (previousValue ?c))
             (parseFloat (currentValue ?c)) ?c) = Inr (NumberObject (Fin 5))"
    by (simp add: pending_fields parseFloat_values isNaN_def calculate_constructor)
  from t [of ?c, THEN conjunct2, THEN conjunct2, THEN conjunct2, THEN conjunct2, rule_format, OF pc]
  have 5: "operator (evaluate ideal_host (1, ''t'') ?c) = None"
    and 6: "evaluate ideal_host (2, ''u'') (evaluate ideal_host (1, ''t'') ?c) = evaluate ideal_host (1, ''t'') ?c"
    by simp_all
  have 7: "currentValue (evaluate ideal_host (1, ''t'') ?c) = ''5''"
    using evaluate_success(1) [of ?c "''constructor''" ideal_host "NumberObject (Fin 5)" "(1, ''t'')"] pc
    by (simp add: formatted_def formatNumber_wrapped_5)
  let ?h = "pending ''5'' ''hasOwnProperty'' ''3''"
  have ph: "operator ?h = Some ''hasOwnProperty'' \<and> previousValue ?h \<noteq> ''''
      \<and> \<not> isNaN (parseFloat (currentValue ?h))
      \<and> fst (calculate ideal_host ''hasOwnProperty'' (parseFloat (previousValue ?h))
             (parseFloat (currentValue ?h)) ?h) = Inr (Boolean False)"
    by (simp add: pending_fields parseFloat_values isNaN_def calculate_hasOwnProperty)
  from t [of ?h, THEN conjunct2, THEN conjunct2, THEN conjunct2, THEN conjunct2, rule_format, OF ph]
  have 8: "evaluate ideal_host (2, ''u'') (evaluate ideal_host (1, ''t'') ?h) = evaluate ideal_host (1, ''t'') ?h"
    by simp
  have 9: "currentValue (evaluate ideal_host (1, ''t'') ?h) = ''false''"
    using evaluate_success(1) [of ?h "''hasOwnProperty''" ideal_host "Boolean False" "(1, ''t'')"] ph
    by (simp add: formatted_def formatNumber_false)
  from 1 2 3 4 5 6 7 8 9 show ?thesis
    by (intro conjI)
qed

section \<open>Factorials\<close>

lemma round_half_even_error: "\<bar>of_int (round_half_even m) - m\<bar> \<le> 1 / 2"
proof -
  have "of_int \<lfloor>m\<rfloor> \<le> m" "m < of_int \<lfloor>m\<rfloor> + 1"
    by linarith+
  then show ?thesis
    by (auto simp: round_half_even_def Let_def abs_if; linarith)
qed

lemma fl_error:
  assumes lo: "2 powi (- 1022) \<le> q" and hi: "q \<le> 2 powi 1023"
  shows "\<exists>r. fl q = Fin r \<and> q * (1 - 1 / 2 ^ 53) \<le> r \<and> r \<le> q * (1 + 1 / 2 ^ 53)"
proof -
  have q: "0 < q"
    using lo by (rule less_le_trans [rotated]) simp
  define e where "e = ilog 2 q"
  from ilog_bounds [of 2 q] q have b: "2 powi e \<le> q" "q < 2 powi (e + 1)"
    by (simp_all add: e_def)
  have e: "- 1022 \<le> e"
  proof (rule ccontr)
    assume "\<not> - 1022 \<le> e"
    then have "(2::rat) powi (e + 1) \<le> 2 powi (- 1022)"
      by (intro power_int_increasing) simp_all
    with b(2) lo show False by simp
  qed
  define u where "u = (2::rat) powi (e - 52)"
  define n where "n = round_half_even (q / u)"
  define r where "r = of_int n * u"
  have u: "0 < u"
    by (simp add: u_def)
  have u2: "u / 2 \<le> q / 2 ^ 53"
  proof -
    have "(2::rat) powi (e - 52 + 52) = 2 powi (e - 52) * 2 powi 52"
      by (rule power_int_add) simp
    then have "(2::rat) powi e = u * 2 ^ 52"
      by (simp add: u_def)
    then have "u * 2 ^ 52 \<le> q"
      using b(1) by simp
    then show ?thesis
      by (simp add: field_simps)
  qed
  have "\<bar>of_int n - q / u\<bar> \<le> 1 / 2"
    unfolding n_def by (rule round_half_even_error)
  then have "\<bar>of_int n - q / u\<bar> * u \<le> 1 / 2 * u"
    using u by (intro mult_right_mono) simp_all
  moreover have "\<bar>of_int n - q / u\<bar> * u = \<bar>r - q\<bar>"
  proof -
    have "(of_int n - q / u) * u = r - q"
      using u by (simp add: r_def field_simps)
    then have "\<bar>(of_int n - q / u) * u\<bar> = \<bar>r - q\<bar>"
      by simp
    then show ?thesis
      using u by (simp add: abs_mult)
  qed
  ultimately have d: "\<bar>r - q\<bar> \<le> q / 2 ^ 53"
    using u2 by simp
  define eps where "eps = (1::rat) / 2 ^ 53"
  have "\<bar>r - q\<bar> \<le> q * eps"
    using d by (simp add: eps_def)
  then have "q * (1 - eps) \<le> r" "r \<le> q * (1 + eps)"
    by (simp_all add: abs_le_iff algebra_simps)
  then have bounds: "q * (1 - 1 / 2 ^ 53) \<le> r" "r \<le> q * (1 + 1 / 2 ^ 53)"
    unfolding eps_def .
  have "q * (1 + 1 / 2 ^ 53) \<le> 2 powi 1023 * (1 + 1 / 2 ^ 53)"
    using hi by (intro mult_right_mono) simp_all
  also have "\<dots> < (2::rat) powi 1024"
    by simp
  finally have no: "\<not> 2 powi 1024 \<le> r"
    using bounds(2) by simp
  have "fl q =
     (let r = of_int (round_half_even (\<bar>q\<bar> / 2 powi (e - 52))) * 2 powi (e - 52)
      in if 2 powi 1024 \<le> r then (if 0 < q then PosInf else NegInf)
         else Fin (if 0 < q then r else - r))"
    using q b e by (intro fl_eq) simp_all
  then have "fl q = Fin r"
    using q no by (simp add: Let_def r_def n_def u_def)
  with bounds show ?thesis by blast
qed

lemma bernoulli_rat: "- 1 \<le> x \<Longrightarrow> 1 + of_nat n * x \<le> (1 + x :: rat) ^ n"
proof (induction n)
  case 0
  then show ?case by simp
next
  case (Suc n)
  have "1 + of_nat (Suc n) * x \<le> 1 + of_nat (Suc n) * x + of_nat n * x\<^sup>2"
    by simp
  also have "\<dots> = (1 + x) * (1 + of_nat n * x)"
    by (simp add: algebra_simps power2_eq_square)
  also have "\<dots> \<le> (1 + x) * (1 + x) ^ n"
    using Suc by (intro mult_left_mono) simp_all
  finally show ?case by simp
qed

lemma power_lower:
  assumes "n \<le> 170"
  shows "1 - 170 / 2 ^ 53 \<le> (1 - 1 / 2 ^ 53 :: rat) ^ n"
proof -
  have "(of_nat n :: rat) \<le> 170"
    using assms by simp
  then have "1 - 170 / 2 ^ 53 \<le> 1 + of_nat n * (- (1 / 2 ^ 53) :: rat)"
    by simp
  also have "\<dots> \<le> (1 + - (1 / 2 ^ 53)) ^ n"
    by (rule bernoulli_rat) simp
  finally show ?thesis by simp
qed

lemma power_upper:
  assumes "n \<le> 170"
  shows "(1 + 1 / 2 ^ 53 :: rat) ^ n \<le> 1 + 1 / 2 ^ 45"
proof -
  define a b :: rat where "a = (1 + 1 / 2 ^ 53) ^ n" and "b = (1 - 1 / 2 ^ 53) ^ n"
  have "a * b = ((1 + 1 / 2 ^ 53) * (1 - 1 / 2 ^ 53) :: rat) ^ n"
    unfolding a_def b_def by (rule power_mult_distrib [symmetric])
  also have "\<dots> \<le> 1 ^ n"
    by (intro power_mono) simp_all
  finally have ab: "a * b \<le> 1"
    by simp
  have a0: "0 \<le> a"
    unfolding a_def by simp
  have "1 - 170 / 2 ^ 53 \<le> b"
    unfolding b_def by (rule power_lower [OF assms])
  then have "a * (1 - 170 / 2 ^ 53) \<le> a * b"
    using a0 by (rule mult_left_mono)
  with ab have "a * (1 - 170 / 2 ^ 53) \<le> 1"
    by (rule order_trans [rotated])
  then have "a \<le> 1 / (1 - 170 / 2 ^ 53)"
    by (simp add: field_simps)
  also have "\<dots> \<le> 1 + 1 / 2 ^ 45"
    by simp
  finally show ?thesis
    unfolding a_def .
qed

lemma fact_170_bound: "(of_nat (fact 170) :: rat) * (1 + 1 / 2 ^ 45) \<le> 2 powi 1023"
  by (simp add: fact_numeral)

lemma rounded_factorial_next:
  assumes "rounded_factorial n = Fin a" and "m = Suc n" and "fl (a * of_nat m) = Fin b"
  shows "rounded_factorial m = Fin b"
  using assms by simp

lemma rf0: "rounded_factorial 0 = Fin 1"
  by simp

lemma rf1: "rounded_factorial 1 = Fin 1"
  by (rule rounded_factorial_next [OF rf0]) (simp_all add: fl_numeral fl_1)

lemma rf2: "rounded_factorial 2 = Fin 2"
  by (rule rounded_factorial_next [OF rf1]) (simp_all add: fl_numeral fl_1)

lemma rf3: "rounded_factorial 3 = Fin 6"
  by (rule rounded_factorial_next [OF rf2]) (simp_all add: fl_numeral fl_1)

lemma rf4: "rounded_factorial 4 = Fin 24"
  by (rule rounded_factorial_next [OF rf3]) (simp_all add: fl_numeral fl_1)

lemma rf5: "rounded_factorial 5 = Fin 120"
  by (rule rounded_factorial_next [OF rf4]) (simp_all add: fl_numeral fl_1)

lemma rf6: "rounded_factorial 6 = Fin 720"
  by (rule rounded_factorial_next [OF rf5]) (simp_all add: fl_numeral fl_1)

lemma rf7: "rounded_factorial 7 = Fin 5040"
  by (rule rounded_factorial_next [OF rf6]) (simp_all add: fl_numeral fl_1)

lemma rf8: "rounded_factorial 8 = Fin 40320"
  by (rule rounded_factorial_next [OF rf7]) (simp_all add: fl_numeral fl_1)

lemma rf9: "rounded_factorial 9 = Fin 362880"
  by (rule rounded_factorial_next [OF rf8]) (simp_all add: fl_numeral fl_1)

lemma rf10: "rounded_factorial 10 = Fin 3628800"
  by (rule rounded_factorial_next [OF rf9]) (simp_all add: fl_numeral fl_1)

lemma rf11: "rounded_factorial 11 = Fin 39916800"
  by (rule rounded_factorial_next [OF rf10]) (simp_all add: fl_numeral fl_1)

lemma rf12: "rounded_factorial 12 = Fin 479001600"
  by (rule rounded_factorial_next [OF rf11]) (simp_all add: fl_numeral fl_1)

lemma rf13: "rounded_factorial 13 = Fin 6227020800"
  by (rule rounded_factorial_next [OF rf12]) (simp_all add: fl_numeral fl_1)

lemma rf14: "rounded_factorial 14 = Fin 87178291200"
  by (rule rounded_factorial_next [OF rf13]) (simp_all add: fl_numeral fl_1)

lemma rf15: "rounded_factorial 15 = Fin 1307674368000"
  by (rule rounded_factorial_next [OF rf14]) (simp_all add: fl_numeral fl_1)

lemma rf16: "rounded_factorial 16 = Fin 20922789888000"
  by (rule rounded_factorial_next [OF rf15]) (simp_all add: fl_numeral fl_1)

lemma rf17: "rounded_factorial 17 = Fin 355687428096000"
  by (rule rounded_factorial_next [OF rf16]) (simp_all add: fl_numeral fl_1)

lemma rf18: "rounded_factorial 18 = Fin 6402373705728000"
  by (rule rounded_factorial_next [OF rf17]) (simp_all add: fl_numeral fl_1)

lemma rf19: "rounded_factorial 19 = Fin 121645100408832000"
  by (rule rounded_factorial_next [OF rf18]) (use fl_exact [of 1856156927625 16] in simp_all)

lemma rf20: "rounded_factorial 20 = Fin 2432902008176640000"
  by (rule rounded_factorial_next [OF rf19]) (use fl_exact [of 9280784638125 18] in simp_all)

lemma rf21: "rounded_factorial 21 = Fin 51090942171709440000"
  by (rule rounded_factorial_next [OF rf20]) (use fl_exact [of 194896477400625 18] in simp_all)

lemma rf22: "rounded_factorial 22 = Fin 1124000727777607680000"
  by (rule rounded_factorial_next [OF rf21]) (use fl_exact [of 2143861251406875 19] in simp_all)

lemma rf23: "rounded_factorial 23 = Fin 25852016738884978212864"
proof (rule rounded_factorial_next [OF rf22])
  show "fl (1124000727777607680000 * of_nat 23) = Fin 25852016738884978212864"
    using fl_eq [of 25852016738884976640000 74] by (simp add: round_half_even_def Let_def)
qed simp

lemma rf24: "rounded_factorial 24 = Fin 620448401733239409999872"
proof (rule rounded_factorial_next [OF rf23])
  show "fl (25852016738884978212864 * of_nat 24) = Fin 620448401733239409999872"
    using fl_eq [of 620448401733239477108736 79] by (simp add: round_half_even_def Let_def)
qed simp

lemma rf25: "rounded_factorial 25 = Fin 15511210043330986055303168"
proof (rule rounded_factorial_next [OF rf24])
  show "fl (620448401733239409999872 * of_nat 25) = Fin 15511210043330986055303168"
    using fl_eq [of 15511210043330985249996800 83] by (simp add: round_half_even_def Let_def)
qed simp

lemma rf26: "rounded_factorial 26 = Fin 403291461126605650322784256"
proof (rule rounded_factorial_next [OF rf25])
  show "fl (15511210043330986055303168 * of_nat 26) = Fin 403291461126605650322784256"
    using fl_eq [of 403291461126605637437882368 88] by (simp add: round_half_even_def Let_def)
qed simp

lemma rf27: "rounded_factorial 27 = Fin 10888869450418351940239884288"
proof (rule rounded_factorial_next [OF rf26])
  show "fl (403291461126605650322784256 * of_nat 27) = Fin 10888869450418351940239884288"
    using fl_eq [of 10888869450418352558715174912 93] by (simp add: round_half_even_def Let_def)
qed simp

lemma rf28: "rounded_factorial 28 = Fin 304888344611713836734530715648"
proof (rule rounded_factorial_next [OF rf27])
  show "fl (10888869450418351940239884288 * of_nat 28) = Fin 304888344611713836734530715648"
    using fl_eq [of 304888344611713854326716760064 97] by (simp add: round_half_even_def Let_def)
qed simp

lemma fl_fact_28: "fl 304888344611713860501504000000 = Fin 304888344611713871918902804480"
  using fl_eq [of 304888344611713860501504000000 97] by (simp add: round_half_even_def Let_def)

lemma factorial_loop_rounded:
  "k \<le> n \<Longrightarrow> factorial_loop (int k + 1) (of_nat n) (rounded_factorial k) = rounded_factorial n"
proof (induction "n - k" arbitrary: k)
  case 0
  then have "k = n"
    by simp
  moreover have "\<not> (of_int (int n + 1) :: rat) \<le> of_nat n"
    by simp
  ultimately show ?case
    by (subst factorial_loop.simps) (simp only: if_False)
next
  case (Suc d)
  then have k: "Suc k \<le> n" and d: "d = n - Suc k"
    by simp_all
  have "(of_nat (Suc k) :: rat) \<le> of_nat n"
    using k by (simp only: of_nat_le_iff)
  then have le: "(of_int (int k + 1) :: rat) \<le> of_nat n"
    by (simp add: add.commute)
  have "factorial_loop (int k + 1) (of_nat n) (rounded_factorial k)
      = factorial_loop (int k + 1 + 1) (of_nat n)
          (js_mul (rounded_factorial k) (Fin (of_int (int k + 1))))"
    using le by (subst factorial_loop.simps) (simp only: if_True)
  also have "\<dots> = factorial_loop (int (Suc k) + 1) (of_nat n) (rounded_factorial (Suc k))"
    by (simp add: add.commute)
  also have "\<dots> = rounded_factorial n"
    using d k by (rule Suc.hyps(1))
  finally show ?case .
qed

lemma factorial_of_nat:
  assumes "n \<le> 170"
  shows "factorial (Fin (of_nat n)) = Inr (rounded_factorial n)"
proof -
  have g: "\<not> (js_less (Fin (of_nat n)) (Fin 0) \<or> \<not> isInteger (Fin (of_nat n))
             \<or> js_gt (Fin (of_nat n)) (Fin 170))"
    using assms by (simp add: js_gt_def)
  consider "n = 0" | "n = 1" | "1 \<le> n" "n \<noteq> 1"
    by arith
  then show ?thesis
  proof cases
    case 1
    then show ?thesis
      by (simp add: factorial_def js_eq_def js_gt_def)
  next
    case 2
    then show ?thesis
      by (simp add: factorial_def js_eq_def js_gt_def fl_1)
  next
    case 3
    have "factorial_loop (int 1 + 1) (of_nat n) (rounded_factorial 1) = rounded_factorial n"
      using 3(1) by (rule factorial_loop_rounded)
    then have "factorial_loop 2 (of_nat n) (Fin 1) = rounded_factorial n"
      by (simp add: fl_1)
    moreover have "\<not> (js_eq (Fin (of_nat n)) (Fin 0) \<or> js_eq (Fin (of_nat n)) (Fin 1))"
      using 3 by (simp add: js_eq_def)
    ultimately show ?thesis
      using g by (simp add: factorial_def)
  qed
qed

lemma factorial_error:
  "factorial x = Inl e \<longleftrightarrow>
     e = InvalidFactorial \<and> (case x of Fin q \<Rightarrow> q < 0 \<or> q \<notin> \<int> \<or> 170 < q | _ \<Rightarrow> True)"
proof (cases x)
  case (Fin q)
  have "of_int \<lfloor>q\<rfloor> = q \<longleftrightarrow> q \<in> \<int>"
    by (metis Ints_cases Ints_of_int floor_of_int)
  then show ?thesis
    by (auto simp: Fin factorial_def js_gt_def split: number.splits)
qed (auto simp: factorial_def)

lemma rounded_factorial_bounds:
  assumes "n \<le> 170"
  shows "\<exists>r. rounded_factorial n = Fin r
    \<and> of_nat (fact n) * (1 - 1 / 2 ^ 53) ^ n \<le> r \<and> r \<le> of_nat (fact n) * (1 + 1 / 2 ^ 53) ^ n"
  using assms
proof (induction n)
  case 0
  show ?case by simp
next
  case (Suc n)
  then obtain r where r: "rounded_factorial n = Fin r"
    and lo: "of_nat (fact n) * (1 - 1 / 2 ^ 53) ^ n \<le> r"
    and hi: "r \<le> of_nat (fact n) * (1 + 1 / 2 ^ 53) ^ n"
    by auto
  define q where "q = r * of_nat (Suc n)"
  define F :: rat where "F = of_nat (fact (Suc n))"
  have F: "F = of_nat (fact n) * of_nat (Suc n)"
    by (simp add: F_def distrib_left)
  have F1: "1 \<le> F"
    unfolding F_def by (simp only: of_nat_fact fact_ge_1)
  have n: "n \<le> 170"
    using Suc.prems by simp
  have qlo: "F * (1 - 1 / 2 ^ 53) ^ n \<le> q"
    using mult_right_mono [OF lo, of "of_nat (Suc n)"] by (simp add: q_def F mult_ac)
  have qhi: "q \<le> F * (1 + 1 / 2 ^ 53) ^ n"
    using mult_right_mono [OF hi, of "of_nat (Suc n)"] by (simp add: q_def F mult_ac)
  have "(2::rat) powi (- 1022) \<le> 1 * (1 - 170 / 2 ^ 53)"
    by simp
  also have "\<dots> \<le> F * (1 - 1 / 2 ^ 53) ^ n"
    using F1 power_lower [OF n] by (intro mult_mono) simp_all
  finally have 1: "2 powi (- 1022) \<le> q"
    using qlo by simp
  have "fact (Suc n) \<le> (fact 170 :: nat)"
    using Suc.prems by (rule fact_mono)
  then have "F \<le> of_nat (fact 170)"
    unfolding F_def by (simp only: of_nat_le_iff)
  then have "F * (1 + 1 / 2 ^ 53) ^ n \<le> of_nat (fact 170) * (1 + 1 / 2 ^ 45)"
    using power_upper [OF n] by (intro mult_mono) simp_all
  with qhi fact_170_bound have 2: "q \<le> 2 powi 1023"
    by simp
  from fl_error [OF 1 2] obtain s where s: "fl q = Fin s"
    and slo: "q * (1 - 1 / 2 ^ 53) \<le> s" and shi: "s \<le> q * (1 + 1 / 2 ^ 53)"
    by auto
  have "F * (1 - 1 / 2 ^ 53) ^ Suc n = F * (1 - 1 / 2 ^ 53) ^ n * (1 - 1 / 2 ^ 53)"
    by simp
  also have "\<dots> \<le> q * (1 - 1 / 2 ^ 53)"
    using qlo by (rule mult_right_mono) simp
  finally have a: "F * (1 - 1 / 2 ^ 53) ^ Suc n \<le> s"
    using slo by simp
  have "s \<le> q * (1 + 1 / 2 ^ 53)"
    by (rule shi)
  also have "\<dots> \<le> F * (1 + 1 / 2 ^ 53) ^ n * (1 + 1 / 2 ^ 53)"
    using qhi by (rule mult_right_mono) simp
  finally have b: "s \<le> F * (1 + 1 / 2 ^ 53) ^ Suc n"
    by simp
  have "rounded_factorial (Suc n) = Fin s"
    using r s by (simp add: q_def)
  with a b show ?case
    unfolding F_def by blast
qed

lemma rounded_factorial_accuracy:
  assumes "n \<le> 170"
  shows "\<exists>r. rounded_factorial n = Fin r
    \<and> of_nat (fact n) * (1 - 1 / 2 ^ 45) \<le> r \<and> r \<le> of_nat (fact n) * (1 + 1 / 2 ^ 45)"
proof -
  from rounded_factorial_bounds [OF assms] obtain r where r: "rounded_factorial n = Fin r"
    and lo: "of_nat (fact n) * (1 - 1 / 2 ^ 53) ^ n \<le> r"
    and hi: "r \<le> of_nat (fact n) * (1 + 1 / 2 ^ 53) ^ n"
    by auto
  have "(1 - 1 / 2 ^ 45 :: rat) \<le> 1 - 170 / 2 ^ 53"
    by simp
  also have "\<dots> \<le> (1 - 1 / 2 ^ 53) ^ n"
    by (rule power_lower [OF assms])
  finally have c: "(1 - 1 / 2 ^ 45 :: rat) \<le> (1 - 1 / 2 ^ 53) ^ n" .
  have "of_nat (fact n) * (1 - 1 / 2 ^ 45 :: rat) \<le> of_nat (fact n) * (1 - 1 / 2 ^ 53) ^ n"
    using c by (rule mult_left_mono) simp
  from this lo have a: "of_nat (fact n) * (1 - 1 / 2 ^ 45) \<le> r"
    by (rule order_trans)
  have "of_nat (fact n) * (1 + 1 / 2 ^ 53) ^ n \<le> (of_nat (fact n) * (1 + 1 / 2 ^ 45) :: rat)"
    using power_upper [OF assms] by (rule mult_left_mono) simp
  with hi have b: "r \<le> of_nat (fact n) * (1 + 1 / 2 ^ 45)"
    by (rule order_trans)
  from r a b show ?thesis
    by blast
qed

lemma le_numeral_cases: "n \<le> numeral k \<longleftrightarrow> n = numeral k \<or> n \<le> pred_numeral k"
  by (simp add: numeral_eq_Suc le_Suc_eq disj_commute)

lemma rounded_factorial_exact:
  assumes "n \<le> 22"
  shows "rounded_factorial n = Fin (of_nat (fact n))"
proof -
  from assms have "n = 22 \<or> n = 21 \<or> n = 20 \<or> n = 19 \<or> n = 18 \<or> n = 17 \<or> n = 16 \<or> n = 15 \<or> n = 14 \<or> n = 13 \<or> n = 12 \<or> n = 11 \<or> n = 10 \<or> n = 9 \<or> n = 8 \<or> n = 7 \<or> n = 6 \<or> n = 5 \<or> n = 4 \<or> n = 3 \<or> n = 2 \<or> n = 0 \<or> n = 1"
    by (simp add: le_numeral_cases le_Suc_eq)
  then show ?thesis
    by (elim disjE) (simp_all add: rf0 rf1 rf2 rf3 rf4 rf5 rf6 rf7 rf8 rf9 rf10 rf11 rf12 rf13 rf14 rf15 rf16 rf17 rf18 rf19 rf20 rf21 rf22 fact_numeral fl_1)
qed

lemma scientificCalculate_factorial:
  "fst (scientificCalculate H ''factorial'' x m) = map_sum id Number (factorial x)"
  by (simp add: scientificCalculate_def scientific_operations_def get_property_def invoke_def
      Let_def split: sum.splits)

lemma factorial_5: "factorial (Fin 5) = Inr (Fin 120)"
  using factorial_of_nat [of 5] by (simp add: rf5)

lemma factorial_171: "factorial (Fin 171) = Inl InvalidFactorial"
  by (simp add: factorial_def js_gt_def)

text \<open>
  C7, as amended. \<open>scientificCalculate('factorial', x)\<close> throws exactly when \<open>x\<close> is
  negative, not an integer (NaN and the infinities are not) or greater than 170, and
  the exception is the invalid-factorial-input error. For an integer \<open>n\<close> from 0 to 170
  it returns the product \<open>1 * 2 * ... * n\<close> as the loop computes it in double arithmetic:
  a finite number within the relative error \<open>2 ^ - 45\<close> of \<open>n!\<close>, and \<open>n!\<close> itself up to
  \<open>n = 22\<close>. The factorial of 5 is 120, and the factorial of 171 is an error.
\<close>

theorem factorial_domain_and_value:
  "fst (scientificCalculate H ''factorial'' x m) = map_sum id Number (factorial x)
   \<and> (factorial x = Inl e \<longleftrightarrow>
        e = InvalidFactorial
        \<and> (case x of Fin q \<Rightarrow> q < 0 \<or> q \<notin> \<int> \<or> 170 < q | _ \<Rightarrow> True))
   \<and> DomainError InvalidFactorial
   \<and> (n \<le> 170 \<longrightarrow>
        factorial (Fin (of_nat n)) = Inr (rounded_factorial n)
        \<and> (\<exists>r. rounded_factorial n = Fin r
              \<and> of_nat (fact n) * (1 - 1 / 2 ^ 45) \<le> r \<and> r \<le> of_nat (fact n) * (1 + 1 / 2 ^ 45)))
   \<and> (n \<le> 22 \<longrightarrow> factorial (Fin (of_nat n)) = Inr (Fin (of_nat (fact n))))
   \<and> fst (scientificCalculate H ''factorial'' (Fin 5) m) = Inr (Number (Fin 120))
   \<and> fst (scientificCalculate H ''factorial'' (Fin 171) m) = Inl InvalidFactorial"
proof (intro conjI impI)
  show "fst (scientificCalculate H ''factorial'' x m) = map_sum id Number (factorial x)"
    by (rule scientificCalculate_factorial)
  show "factorial x = Inl e \<longleftrightarrow>
        e = InvalidFactorial
        \<and> (case x of Fin q \<Rightarrow> q < 0 \<or> q \<notin> \<int> \<or> 170 < q | _ \<Rightarrow> True)"
    by (rule factorial_error)
  show "DomainError InvalidFactorial"
    by (simp add: DomainError_def)
  show "factorial (Fin (of_nat n)) = Inr (rounded_factorial n)" if "n \<le> 170"
    using that by (rule factorial_of_nat)
  show "\<exists>r. rounded_factorial n = Fin r
              \<and> of_nat (fact n) * (1 - 1 / 2 ^ 45) \<le> r \<and> r \<le> of_nat (fact n) * (1 + 1 / 2 ^ 45)"
    if "n \<le> 170"
    using that by (rule rounded_factorial_accuracy)
  show "factorial (Fin (of_nat n)) = Inr (Fin (of_nat (fact n)))" if "n \<le> 22"
  proof -
    from that have "n \<le> 170"
      by simp
    then have "factorial (Fin (of_nat n)) = Inr (rounded_factorial n)"
      by (rule factorial_of_nat)
    with rounded_factorial_exact [OF that] show ?thesis
      by simp
  qed
  show "fst (scientificCalculate H ''factorial'' (Fin 5) m) = Inr (Number (Fin 120))"
    by (simp add: scientificCalculate_factorial factorial_5)
  show "fst (scientificCalculate H ''factorial'' (Fin 171) m) = Inl InvalidFactorial"
    by (simp add: scientificCalculate_factorial factorial_171)
qed

theorem factorial_domain_and_value_witness:
  "(10 :: nat) \<le> 22
   \<and> fst (scientificCalculate ideal_host ''factorial'' (Fin 10) initial) = Inr (Number (Fin 3628800))
   \<and> rounded_factorial 10 = Fin 3628800
   \<and> factorial (Fin (- 1)) = Inl InvalidFactorial
   \<and> factorial (Fin (5 / 2)) = Inl InvalidFactorial
   \<and> factorial PosInf = Inl InvalidFactorial"
proof -
  note t = factorial_domain_and_value
  have 1: "factorial (Fin 10) = Inr (Fin 3628800)"
    using t [of _ _ _ _ 10, THEN conjunct2, THEN conjunct2, THEN conjunct2, THEN conjunct2,
        THEN conjunct1]
    by (simp add: fact_numeral)
  have 2: "fst (scientificCalculate ideal_host ''factorial'' (Fin 10) initial)
             = map_sum id Number (factorial (Fin 10))"
    using t [of ideal_host "Fin 10" initial, THEN conjunct1] .
  have 3: "rounded_factorial 10 = Fin 3628800"
    using t [of _ _ _ _ 10, THEN conjunct2, THEN conjunct2, THEN conjunct2, THEN conjunct1] 1
    by simp
  have 4: "factorial (Fin (- 1)) = Inl InvalidFactorial"
    using t [of _ "Fin (- 1)" _ InvalidFactorial, THEN conjunct2, THEN conjunct1] by simp
  have 5: "factorial (Fin (5 / 2)) = Inl InvalidFactorial"
    using t [of _ "Fin (5 / 2)" _ InvalidFactorial, THEN conjunct2, THEN conjunct1]
    by (simp add: frac_eq_0_iff [symmetric] frac_def)
  have 6: "factorial PosInf = Inl InvalidFactorial"
    using t [of _ PosInf _ InvalidFactorial, THEN conjunct2, THEN conjunct1] by simp
  from 1 2 3 4 5 6 show ?thesis
    by simp
qed

text \<open>
  The claim as stated fails: the factorial of 23 that the loop returns is not \<open>23!\<close>, and
  the factorial of 28 it returns is not even the double nearest to \<open>28!\<close>.
\<close>

theorem factorial_rounding_counterexample:
  "fst (scientificCalculate ideal_host ''factorial'' (Fin 23) initial)
     = Inr (Number (Fin 25852016738884978212864))
   \<and> (of_nat (fact 23) :: rat) = 25852016738884976640000
   \<and> fst (scientificCalculate ideal_host ''factorial'' (Fin 28) initial)
     = Inr (Number (Fin 304888344611713836734530715648))
   \<and> (of_nat (fact 28) :: rat) = 304888344611713860501504000000
   \<and> fl (of_nat (fact 28)) = Fin 304888344611713871918902804480"
proof (intro conjI)
  show "fst (scientificCalculate ideal_host ''factorial'' (Fin 23) initial)
     = Inr (Number (Fin 25852016738884978212864))"
    using factorial_of_nat [of 23] by (simp add: scientificCalculate_factorial rf23)
  show "(of_nat (fact 23) :: rat) = 25852016738884976640000"
    by (simp add: fact_numeral)
  show "fst (scientificCalculate ideal_host ''factorial'' (Fin 28) initial)
     = Inr (Number (Fin 304888344611713836734530715648))"
    using factorial_of_nat [of 28] by (simp add: scientificCalculate_factorial rf28)
  show "(of_nat (fact 28) :: rat) = 304888344611713860501504000000"
    by (simp add: fact_numeral)
  show "fl (of_nat (fact 28)) = Fin 304888344611713871918902804480"
    using fl_fact_28 by (simp add: fact_numeral)
qed

section \<open>Number formatting\<close>
















































end
